theory Spec2Isabelle
  imports Main "HOL-Library.AList"
begin

section \<open>JavaScript values and the JSON codec\<close>

text \<open>
  The feature-switch tools keep the configuration document as the plain JavaScript value that
  \<^verbatim>\<open>JSON.parse\<close> returns and write it back with \<^verbatim>\<open>JSON.stringify(v, null, 2)\<close>.
  A value is \<^verbatim>\<open>null\<close>, a boolean, a number, a string, an array or an object; an object is
  the list of its own properties in the order \<^verbatim>\<open>Object.keys\<close> enumerates them.

  Two restrictions of this model: a string is a list of 8-bit code units (JavaScript has
  16-bit ones), and a number is an integer (a literal with a fraction or an exponent is
  floating point and is rejected by the lexer below).
\<close>

datatype json =
    JNull
  | JBool bool
  | JNum int
  | JStr string
  | JArr "json list"
  | JObj "(string \<times> json) list"

subsection \<open>Numbers\<close>

definition digit_char :: "nat \<Rightarrow> char" where
  "digit_char d = char_of (48 + d)"

definition is_digit :: "char \<Rightarrow> bool" where
  "is_digit c = (48 \<le> (of_char c :: nat) \<and> (of_char c :: nat) \<le> 57)"

definition digit_val :: "char \<Rightarrow> nat" where
  "digit_val c = of_char c - 48"

fun dec_digits :: "nat \<Rightarrow> string" where
  "dec_digits n = (if n < 10 then [digit_char n] else dec_digits (n div 10) @ [digit_char (n mod 10)])"

declare dec_digits.simps [simp del]

definition nat_of_digits :: "string \<Rightarrow> nat" where
  "nat_of_digits ds = foldl (\<lambda>a c. 10 * a + digit_val c) 0 ds"

text \<open>\<^verbatim>\<open>Number.prototype.toString\<close> on an integer.\<close>

definition number_to_string :: "int \<Rightarrow> string" where
  "number_to_string i = (if i < 0 then CHR ''-'' # dec_digits (nat (- i)) else dec_digits (nat i))"

subsection \<open>Property order of an object\<close>

text \<open>
  An own property key that is an array index (the canonical decimal form of an integer
  below \<open>2^32 - 1\<close>) is enumerated before every other key, in ascending numeric order; the
  other keys follow in the order of their creation. Defining a key that exists replaces its
  value and keeps its place.
\<close>

definition array_index :: "string \<Rightarrow> bool" where
  "array_index k = (k \<noteq> [] \<and> list_all is_digit k \<and> (k = ''0'' \<or> hd k \<noteq> CHR ''0'')
     \<and> nat_of_digits k < 4294967295)"

fun insert_index :: "string \<Rightarrow> json \<Rightarrow> (string \<times> json) list \<Rightarrow> (string \<times> json) list" where
  "insert_index k v [] = [(k, v)]"
| "insert_index k v ((k', v') # kvs) =
     (if array_index k' \<and> nat_of_digits k' < nat_of_digits k
      then (k', v') # insert_index k v kvs
      else (k, v) # (k', v') # kvs)"

definition define_property :: "(string \<times> json) list \<Rightarrow> string \<Rightarrow> json \<Rightarrow> (string \<times> json) list" where
  "define_property kvs k v =
     (if k \<in> fst ` set kvs \<or> \<not> array_index k then AList.update k v kvs
      else insert_index k v kvs)"

definition from_entries :: "(string \<times> json) list \<Rightarrow> (string \<times> json) list" where
  "from_entries kvs = foldl (\<lambda>obj (k, v). define_property obj k v) [] kvs"

subsection \<open>\<^verbatim>\<open>JSON.stringify(value, null, 2)\<close>\<close>

definition hex_char :: "nat \<Rightarrow> char" where
  "hex_char d = (if d < 10 then char_of (48 + d) else char_of (87 + d))"

definition quote_char :: "char \<Rightarrow> string" where
  "quote_char c =
     (if c = CHR 0x22 then [CHR 0x5C, CHR 0x22]
      else if c = CHR 0x5C then [CHR 0x5C, CHR 0x5C]
      else if c = CHR 0x08 then [CHR 0x5C, CHR ''b'']
      else if c = CHR 0x0C then [CHR 0x5C, CHR ''f'']
      else if c = CHR 0x0A then [CHR 0x5C, CHR ''n'']
      else if c = CHR 0x0D then [CHR 0x5C, CHR ''r'']
      else if c = CHR 0x09 then [CHR 0x5C, CHR ''t'']
      else if (of_char c :: nat) < 32
        then [CHR 0x5C, CHR ''u'', CHR ''0'', CHR ''0'',
              hex_char (of_char c div 16), hex_char (of_char c mod 16)]
      else [c])"

definition QuoteJSONString :: "string \<Rightarrow> string" where
  "QuoteJSONString s = CHR 0x22 # concat (map quote_char s) @ [CHR 0x22]"

fun join :: "string \<Rightarrow> string list \<Rightarrow> string" where
  "join sep [] = []"
| "join sep [x] = x"
| "join sep (x # y # ys) = x @ sep @ join sep (y # ys)"

definition indent :: "nat \<Rightarrow> string" where
  "indent d = replicate (2 * d) CHR '' ''"

definition newline :: string where
  "newline = [CHR 0x0A]"

text \<open>
  \<open>SerializeJSONProperty\<close> with the gap of two spaces; \<open>d\<close> is the nesting depth, so the
  current indentation is \<open>indent d\<close>.
\<close>

fun serialize :: "nat \<Rightarrow> json \<Rightarrow> string" where
  "serialize d JNull = ''null''"
| "serialize d (JBool b) = (if b then ''true'' else ''false'')"
| "serialize d (JNum i) = number_to_string i"
| "serialize d (JStr s) = QuoteJSONString s"
| "serialize d (JArr xs) =
     (if xs = [] then ''[]''
      else ''['' @ newline @ indent (Suc d)
           @ join ('','' @ newline @ indent (Suc d)) (map (serialize (Suc d)) xs)
           @ newline @ indent d @ '']'')"
| "serialize d (JObj kvs) =
     (if kvs = [] then ''{}''
      else ''{'' @ newline @ indent (Suc d)
           @ join ('','' @ newline @ indent (Suc d))
               (map (\<lambda>kv. QuoteJSONString (fst kv) @ '': '' @ serialize (Suc d) (snd kv)) kvs)
           @ newline @ indent d @ ''}'')"

definition JSON_stringify :: "json \<Rightarrow> string" where
  "JSON_stringify v = serialize 0 v"

subsection \<open>\<^verbatim>\<open>JSON.parse\<close>: the lexer\<close>

datatype token =
    TLBrace | TRBrace | TLBracket | TRBracket | TColon | TComma
  | TString string | TNumber int | TTrue | TFalse | TNull

definition hex_val :: "char \<Rightarrow> nat option" where
  "hex_val c =
     (let n = (of_char c :: nat) in
      if 48 \<le> n \<and> n \<le> 57 then Some (n - 48)
      else if 97 \<le> n \<and> n \<le> 102 then Some (n - 87)
      else if 65 \<le> n \<and> n \<le> 70 then Some (n - 55)
      else None)"

definition hex4 :: "char \<Rightarrow> char \<Rightarrow> char \<Rightarrow> char \<Rightarrow> nat option" where
  "hex4 a b c d =
     (case (hex_val a, hex_val b, hex_val c, hex_val d) of
        (Some w, Some x, Some y, Some z) \<Rightarrow> Some (4096 * w + 256 * x + 16 * y + z)
      | _ \<Rightarrow> None)"

definition unescape :: "char \<Rightarrow> char option" where
  "unescape e =
     (if e = CHR 0x22 then Some (CHR 0x22)
      else if e = CHR 0x5C then Some (CHR 0x5C)
      else if e = CHR ''/'' then Some (CHR ''/'')
      else if e = CHR ''b'' then Some (CHR 0x08)
      else if e = CHR ''f'' then Some (CHR 0x0C)
      else if e = CHR ''n'' then Some (CHR 0x0A)
      else if e = CHR ''r'' then Some (CHR 0x0D)
      else if e = CHR ''t'' then Some (CHR 0x09)
      else None)"

definition prepend :: "'a \<Rightarrow> ('a list \<times> 'b) option \<Rightarrow> ('a list \<times> 'b) option" where
  "prepend x r = (case r of None \<Rightarrow> None | Some (xs, rest) \<Rightarrow> Some (x # xs, rest))"

text \<open>
  The characters of a string literal after its opening quote, up to the closing quote:
  the decoded string and the rest of the input. A \<^verbatim>\<open>\u\<close> escape above \<open>0xFF\<close> is outside
  the 8-bit model.
\<close>

fun lex_string :: "string \<Rightarrow> (string \<times> string) option" where
  "lex_string [] = None"
| "lex_string [c] = (if c = CHR 0x22 then Some ([], []) else None)"
| "lex_string (c # e # s) =
     (if c = CHR 0x22 then Some ([], e # s)
      else if c = CHR 0x5C then
        (if e = CHR ''u'' then
           (case s of
              h1 # h2 # h3 # h4 # s' \<Rightarrow>
                (case hex4 h1 h2 h3 h4 of
                   None \<Rightarrow> None
                 | Some n \<Rightarrow> if n < 256 then prepend (char_of n) (lex_string s') else None)
            | _ \<Rightarrow> None)
         else (case unescape e of None \<Rightarrow> None | Some ch \<Rightarrow> prepend ch (lex_string s)))
      else if (of_char c :: nat) < 32 then None
      else prepend c (lex_string (e # s)))"

text \<open>
  A number literal: an optional minus sign and the digits of an integer without a leading
  zero. A fraction or an exponent after it is outside the integer model.
\<close>

definition lex_digits :: "bool \<Rightarrow> string \<Rightarrow> (int \<times> string) option" where
  "lex_digits neg s =
     (let ds = takeWhile is_digit s;
          r = dropWhile is_digit s
      in if ds = [] then None
         else if hd ds = CHR ''0'' \<and> length ds > 1 then None
         else if r \<noteq> [] \<and> hd r \<in> {CHR ''.'', CHR ''e'', CHR ''E''} then None
         else Some (if neg then - int (nat_of_digits ds) else int (nat_of_digits ds), r))"

definition lex_number :: "string \<Rightarrow> (int \<times> string) option" where
  "lex_number s =
     (if s \<noteq> [] \<and> hd s = CHR ''-'' then lex_digits True (tl s) else lex_digits False s)"

definition is_space :: "char \<Rightarrow> bool" where
  "is_space c = (c = CHR '' '' \<or> c = CHR 0x09 \<or> c = CHR 0x0A \<or> c = CHR 0x0D)"

definition cons_token :: "token \<Rightarrow> token list option \<Rightarrow> token list option" where
  "cons_token t r = map_option ((#) t) r"

lemma prepend_Some: "prepend c r = Some (x, y) \<Longrightarrow> \<exists>x'. r = Some (x', y)"
  by (auto simp: prepend_def split: option.splits)

lemma lex_string_shorter: "lex_string s = Some (x, r) \<Longrightarrow> length r < length s"
proof (induction s arbitrary: x r rule: lex_string.induct)
  case 1 then show ?case by simp
next
  case (2 c) then show ?case by (simp split: if_splits)
next
  case (3 c e s)
  show ?case
  proof (cases "c = CHR 0x22")
    case True with 3(4) show ?thesis by auto
  next
    case nq: False
    show ?thesis
    proof (cases "c = CHR 0x5C")
      case bs: True
      show ?thesis
      proof (cases "e = CHR ''u''")
        case u: True
        from 3(4) nq bs u obtain h1 h2 h3 h4 s' n where
          s: "s = h1 # h2 # h3 # h4 # s'" and h: "hex4 h1 h2 h3 h4 = Some n" and n: "n < 256"
          and p: "prepend (char_of n) (lex_string s') = Some (x, r)"
          by (auto split: list.splits option.splits if_splits)
        from p obtain x' where "lex_string s' = Some (x', r)" by (auto dest: prepend_Some)
        from 3(1)[OF nq bs u s refl refl refl h n this] show ?thesis using s by simp
      next
        case nu: False
        from 3(4) nq bs nu obtain ch where
          h: "unescape e = Some ch" and p: "prepend ch (lex_string s) = Some (x, r)"
          by (auto split: option.splits)
        from p obtain x' where "lex_string s = Some (x', r)" by (auto dest: prepend_Some)
        from 3(2)[OF nq bs nu h this] show ?thesis by simp
      qed
    next
      case nbs: False
      from 3(4) nq nbs have lt: "\<not> (of_char c :: nat) < 32" and p: "prepend c (lex_string (e # s)) = Some (x, r)"
        by (auto split: if_splits)
      from p obtain x' where "lex_string (e # s) = Some (x', r)" by (auto dest: prepend_Some)
      from 3(3)[OF nq nbs lt this] show ?thesis by simp
    qed
  qed
qed

lemma lex_digits_shorter: "lex_digits neg s = Some (n, r) \<Longrightarrow> length r < length s"
proof -
  assume a: "lex_digits neg s = Some (n, r)"
  then have r: "r = dropWhile is_digit s" and ne: "takeWhile is_digit s \<noteq> []"
    by (auto simp: lex_digits_def Let_def split: if_splits)
  have "length (takeWhile is_digit s) + length (dropWhile is_digit s) = length s"
    by (metis length_append takeWhile_dropWhile_id)
  with ne r show ?thesis
    by (cases "takeWhile is_digit s") auto
qed

lemma lex_number_shorter: "lex_number s = Some (n, r) \<Longrightarrow> length r < length s"
  by (cases s) (auto simp: lex_number_def dest: lex_digits_shorter split: if_splits)

function lex :: "string \<Rightarrow> token list option" where
  "lex [] = Some []"
| "lex (c # s) =
     (if is_space c then lex s
      else if c = CHR ''{'' then cons_token TLBrace (lex s)
      else if c = CHR ''}'' then cons_token TRBrace (lex s)
      else if c = CHR ''['' then cons_token TLBracket (lex s)
      else if c = CHR '']'' then cons_token TRBracket (lex s)
      else if c = CHR '':'' then cons_token TColon (lex s)
      else if c = CHR '','' then cons_token TComma (lex s)
      else if c = CHR 0x22 then
        (case lex_string s of None \<Rightarrow> None | Some (x, r) \<Rightarrow> cons_token (TString x) (lex r))
      else if c = CHR ''-'' \<or> is_digit c then
        (case lex_number (c # s) of None \<Rightarrow> None | Some (n, r) \<Rightarrow> cons_token (TNumber n) (lex r))
      else if take 4 (c # s) = ''true'' then cons_token TTrue (lex (drop 3 s))
      else if take 5 (c # s) = ''false'' then cons_token TFalse (lex (drop 4 s))
      else if take 4 (c # s) = ''null'' then cons_token TNull (lex (drop 3 s))
      else None)"
  by pat_completeness auto

termination
proof (relation "measure length", goal_cases)
  case 1 show ?case by simp
next
  case (9 c s x2 x y)
  then have "lex_string s = Some (x, y)" by simp
  from lex_string_shorter[OF this] show ?case by simp
next
  case (10 c s x2 x y)
  then have "lex_number (c # s) = Some (x, y)" by simp
  from lex_number_shorter[OF this] show ?case by simp
qed simp_all

declare lex.simps [simp del]

subsection \<open>\<^verbatim>\<open>JSON.parse\<close>: the grammar\<close>

text \<open>
  Recursive descent over the tokens. \<open>parse_elements\<close> reads the elements of a non-empty
  array up to and including its closing bracket, \<open>parse_members\<close> the members of a
  non-empty object up to and including its closing brace. The length tests before the
  recursive calls always succeed (a value consumes at least one token); they make the
  recursion well-founded.
\<close>

fun token_string :: "token \<Rightarrow> string option" where
  "token_string (TString s) = Some s"
| "token_string _ = None"

fun parse_value :: "token list \<Rightarrow> (json \<times> token list) option"
  and parse_elements :: "token list \<Rightarrow> (json list \<times> token list) option"
  and parse_members :: "token list \<Rightarrow> ((string \<times> json) list \<times> token list) option"
where
  "parse_value [] = None"
| "parse_value (TNull # ts) = Some (JNull, ts)"
| "parse_value (TTrue # ts) = Some (JBool True, ts)"
| "parse_value (TFalse # ts) = Some (JBool False, ts)"
| "parse_value (TNumber n # ts) = Some (JNum n, ts)"
| "parse_value (TString s # ts) = Some (JStr s, ts)"
| "parse_value (TLBracket # ts) =
     (if ts \<noteq> [] \<and> hd ts = TRBracket then Some (JArr [], tl ts)
      else (case parse_elements ts of
              None \<Rightarrow> None
            | Some (xs, r) \<Rightarrow> Some (JArr xs, r)))"
| "parse_value (TLBrace # ts) =
     (if ts \<noteq> [] \<and> hd ts = TRBrace then Some (JObj [], tl ts)
      else (case parse_members ts of
              None \<Rightarrow> None
            | Some (kvs, r) \<Rightarrow> Some (JObj (from_entries kvs), r)))"
| "parse_value (TRBrace # ts) = None"
| "parse_value (TRBracket # ts) = None"
| "parse_value (TColon # ts) = None"
| "parse_value (TComma # ts) = None"
| "parse_elements ts =
     (case parse_value ts of
        None \<Rightarrow> None
      | Some (v, r) \<Rightarrow>
          (if r \<noteq> [] \<and> hd r = TRBracket then Some ([v], tl r)
           else if r \<noteq> [] \<and> hd r = TComma \<and> length (tl r) < length ts then
             (case parse_elements (tl r) of
                None \<Rightarrow> None
              | Some (vs, r') \<Rightarrow> Some (v # vs, r'))
           else None))"
| "parse_members [] = None"
| "parse_members [t] = None"
| "parse_members (t # c # ts) =
     (case token_string t of
        None \<Rightarrow> None
      | Some k \<Rightarrow>
          (if c \<noteq> TColon then None
           else (case parse_value ts of
                   None \<Rightarrow> None
                 | Some (v, r) \<Rightarrow>
                     (if r \<noteq> [] \<and> hd r = TRBrace then Some ([(k, v)], tl r)
                      else if r \<noteq> [] \<and> hd r = TComma \<and> length (tl r) < length ts then
                        (case parse_members (tl r) of
                           None \<Rightarrow> None
                         | Some (kvs, r') \<Rightarrow> Some ((k, v) # kvs, r'))
                      else None))))"

definition JSON_parse :: "string \<Rightarrow> json option" where
  "JSON_parse s =
     (case lex s of
        None \<Rightarrow> None
      | Some ts \<Rightarrow>
          (case parse_value ts of
             Some (v, []) \<Rightarrow> Some v
           | _ \<Rightarrow> None))"

section \<open>JavaScript operations the tools apply to a parsed document\<close>

text \<open>
  A thrown value is an \<^verbatim>\<open>Error\<close> object: its constructor and its message. The texts of
  the errors raised by the runtime itself are engine-defined and stand here as fixed strings.
\<close>

datatype exn = Error string | TypeError string | SyntaxError string | RangeError string

fun message :: "exn \<Rightarrow> string" where
  "message (Error m) = m"
| "message (TypeError m) = m"
| "message (SyntaxError m) = m"
| "message (RangeError m) = m"

fun error_name :: "exn \<Rightarrow> string" where
  "error_name (Error m) = ''Error''"
| "error_name (TypeError m) = ''TypeError''"
| "error_name (SyntaxError m) = ''SyntaxError''"
| "error_name (RangeError m) = ''RangeError''"

text \<open>\<^verbatim>\<open>String(error)\<close>, that is \<^verbatim>\<open>Error.prototype.toString\<close>.\<close>

definition error_to_string :: "exn \<Rightarrow> string" where
  "error_to_string e =
     (if message e = [] then error_name e else error_name e @ '': '' @ message e)"

fun truthy :: "json \<Rightarrow> bool" where
  "truthy JNull = False"
| "truthy (JBool b) = b"
| "truthy (JNum i) = (i \<noteq> 0)"
| "truthy (JStr s) = (s \<noteq> [])"
| "truthy (JArr xs) = True"
| "truthy (JObj kvs) = True"

definition index_below :: "string \<Rightarrow> nat \<Rightarrow> bool" where
  "index_below k n = (array_index k \<and> nat_of_digits k < n)"

text \<open>
  \<open>get_property v k\<close> is \<^verbatim>\<open>v[k]\<close> for a key \<open>k\<close> that no prototype defines (the tools
  read \<^verbatim>\<open>Environments\<close>, \<^verbatim>\<open>commitId\<close> and stage names that are own properties); \<open>None\<close>
  is \<^verbatim>\<open>undefined\<close>.
\<close>

fun get_property :: "json \<Rightarrow> string \<Rightarrow> exn + json option" where
  "get_property JNull k = Inl (TypeError (''Cannot read properties of null (reading '' @ k @ '')''))"
| "get_property (JObj kvs) k = Inr (map_of kvs k)"
| "get_property (JArr xs) k =
     Inr (if index_below k (length xs) then Some (xs ! nat_of_digits k)
          else if k = ''length'' then Some (JNum (int (length xs)))
          else None)"
| "get_property (JStr s) k =
     Inr (if index_below k (length s) then Some (JStr [s ! nat_of_digits k])
          else if k = ''length'' then Some (JNum (int (length s)))
          else None)"
| "get_property (JBool b) k = Inr None"
| "get_property (JNum i) k = Inr None"

text \<open>\<^verbatim>\<open>Object.prototype.hasOwnProperty.call(v, k)\<close> and \<^verbatim>\<open>Object.keys(v)\<close>.\<close>

fun has_own_property :: "json \<Rightarrow> string \<Rightarrow> bool" where
  "has_own_property (JObj kvs) k = (k \<in> fst ` set kvs)"
| "has_own_property (JArr xs) k = (index_below k (length xs) \<or> k = ''length'')"
| "has_own_property (JStr s) k = (index_below k (length s) \<or> k = ''length'')"
| "has_own_property v k = False"

fun Object_keys :: "json \<Rightarrow> string list" where
  "Object_keys (JObj kvs) = map fst kvs"
| "Object_keys (JArr xs) = map dec_digits [0..<length xs]"
| "Object_keys (JStr s) = map dec_digits [0..<length s]"
| "Object_keys v = []"

text \<open>
  The method call \<^verbatim>\<open>v.hasOwnProperty(k)\<close> first looks \<^verbatim>\<open>hasOwnProperty\<close> up on \<open>v\<close>: an
  object with an own property of that name shadows the inherited method, and a value read
  from JSON is never a function.
\<close>

fun call_hasOwnProperty :: "json \<Rightarrow> string \<Rightarrow> exn + bool" where
  "call_hasOwnProperty JNull k =
     Inl (TypeError ''Cannot read properties of null (reading hasOwnProperty)'')"
| "call_hasOwnProperty (JObj kvs) k =
     (if ''hasOwnProperty'' \<in> fst ` set kvs
      then Inl (TypeError ''currentConfig.Environments.hasOwnProperty is not a function'')
      else Inr (has_own_property (JObj kvs) k))"
| "call_hasOwnProperty v k = Inr (has_own_property v k)"

text \<open>
  The assignment \<^verbatim>\<open>v[k] = x\<close> in strict mode (the tools are ES modules), for a key \<open>k\<close>
  that is an own property of \<open>v\<close>.
\<close>

fun assign_property :: "json \<Rightarrow> string \<Rightarrow> json \<Rightarrow> exn + json" where
  "assign_property (JObj kvs) k x = Inr (JObj (define_property kvs k x))"
| "assign_property (JArr xs) k x =
     (if k = ''length'' then Inl (RangeError ''Invalid array length'')
      else Inr (JArr (xs[nat_of_digits k := x])))"
| "assign_property v k x = Inl (TypeError (''Cannot assign to read only property '' @ k))"

text \<open>An object literal whose keys are no array indices; \<^verbatim>\<open>JSON.stringify\<close> leaves out a
  property whose value is \<^verbatim>\<open>undefined\<close>.\<close>

fun defined_properties :: "(string \<times> json option) list \<Rightarrow> (string \<times> json) list" where
  "defined_properties [] = []"
| "defined_properties ((k, None) # kvs) = defined_properties kvs"
| "defined_properties ((k, Some v) # kvs) = (k, v) # defined_properties kvs"

section \<open>The remote source-control service\<close>

datatype VersionControlChangeType = Add | Edit

record GitChange =
  changeType :: VersionControlChangeType
  item_path :: string
  newContent :: string

record GitCommitRef =
  comment :: string
  changes :: "GitChange list"

record GitRefUpdate =
  refName :: string
  oldObjectId :: string
  newObjectId :: "string option"

record GitPush =
  refUpdates :: "GitRefUpdate list"
  commits :: "GitCommitRef list"

record GitRef =
  ref_name :: string
  objectId :: string

text \<open>\<^verbatim>\<open>branch.commit?.commitId\<close> of the branch statistics that \<^verbatim>\<open>getBranch\<close> returns.\<close>

record GitBranchStats =
  commit_commitId :: "string option"

text \<open>The response of \<^verbatim>\<open>fetch\<close>: \<^verbatim>\<open>response.ok\<close> and the \<^verbatim>\<open>content\<close> of its JSON body.\<close>

datatype response = Response bool "string option"

datatype call =
    ConnectionProvider | GetGitApi | GetRefs | UpdateRefs | CreatePush | GetBranch
  | GetItemContent | TokenProvider | Fetch

datatype event =
    CallConnectionProvider
  | CallGetGitApi
  | CallGetRefs string string
  | CallUpdateRefs "GitRefUpdate list" string
  | CallCreatePush GitPush string
  | CallGetBranch string string
  | CallGetItemContent string string string
  | CallTokenProvider
  | CallFetch string string string

text \<open>
  Modelled from the spec: the remote source-control service and the credential provider are
  external collaborators, reached through a client library. The state below is that of
  the repository a call names: its refs (ref name and tip commit id), the files of every
  commit (path and content), the transport or authorization failure the next call of each
  kind meets (\<open>faults\<close>, with the message of the error thrown), the function by which the
  service computes the id of a new commit from its parent and content, and the log of the
  calls received. A push is applied atomically and only if the expected old commit id of
  its ref update is the ref's current tip.
\<close>

record remote =
  refs :: "(string \<times> string) list"
  trees :: "(string \<times> (string \<times> string) list) list"
  faults :: "call \<Rightarrow> string option"
  commit_id :: "string \<Rightarrow> GitCommitRef \<Rightarrow> string"
  log :: "event list"

definition NULL_OBJECT_ID :: string where
  "NULL_OBJECT_ID = replicate 40 CHR ''0''"

definition received :: "event \<Rightarrow> remote \<Rightarrow> remote" where
  "received e w = w\<lparr>log := log w @ [e]\<rparr>"

definition starts_with :: "string \<Rightarrow> string \<Rightarrow> bool" where
  "starts_with s p = (take (length p) s = p)"

definition normalize_path :: "string \<Rightarrow> string" where
  "normalize_path p = (if starts_with p ''/'' then p else ''/'' @ p)"

definition file_at :: "remote \<Rightarrow> string \<Rightarrow> string \<Rightarrow> string option" where
  "file_at w branch p =
     (case map_of (refs w) (''refs/heads/'' @ branch) of
        None \<Rightarrow> None
      | Some c \<Rightarrow>
          (case map_of (trees w) c of
             None \<Rightarrow> None
           | Some files \<Rightarrow> map_of files (normalize_path p)))"

definition connectionProvider :: "remote \<Rightarrow> (exn + unit) \<times> remote" where
  "connectionProvider w =
     (case faults w ConnectionProvider of
        Some m \<Rightarrow> (Inl (Error m), received CallConnectionProvider w)
      | None \<Rightarrow> (Inr (), received CallConnectionProvider w))"

definition getGitApi :: "remote \<Rightarrow> (exn + unit) \<times> remote" where
  "getGitApi w =
     (case faults w GetGitApi of
        Some m \<Rightarrow> (Inl (Error m), received CallGetGitApi w)
      | None \<Rightarrow> (Inr (), received CallGetGitApi w))"

text \<open>The refs whose name starts with \<^verbatim>\<open>refs/\<close> followed by the filter.\<close>

definition getRefs :: "string \<Rightarrow> string \<Rightarrow> remote \<Rightarrow> (exn + GitRef list) \<times> remote" where
  "getRefs repositoryId filter_arg w =
     (case faults w GetRefs of
        Some m \<Rightarrow> (Inl (Error m), received (CallGetRefs repositoryId filter_arg) w)
      | None \<Rightarrow>
          (Inr (map (\<lambda>(n, c). \<lparr>ref_name = n, objectId = c\<rparr>)
                 (filter (\<lambda>(n, c). starts_with n (''refs/'' @ filter_arg)) (refs w))),
           received (CallGetRefs repositoryId filter_arg) w))"

definition getBranch :: "string \<Rightarrow> string \<Rightarrow> remote \<Rightarrow> (exn + GitBranchStats) \<times> remote" where
  "getBranch repositoryId branch w =
     (case faults w GetBranch of
        Some m \<Rightarrow> (Inl (Error m), received (CallGetBranch repositoryId branch) w)
      | None \<Rightarrow>
          (Inr \<lparr>commit_commitId = map_of (refs w) (''refs/heads/'' @ branch)\<rparr>,
           received (CallGetBranch repositoryId branch) w))"

text \<open>
  The primary retrieval path: the content of the stream, \<open>None\<close> when no stream is
  returned; a failure of the call or of the stream is the exception.
\<close>

definition getItemContent :: "string \<Rightarrow> string \<Rightarrow> string \<Rightarrow> remote \<Rightarrow> (exn + string option) \<times> remote" where
  "getItemContent repositoryId p version w =
     (case faults w GetItemContent of
        Some m \<Rightarrow> (Inl (Error m), received (CallGetItemContent repositoryId p version) w)
      | None \<Rightarrow> (Inr (file_at w version p), received (CallGetItemContent repositoryId p version) w))"

definition tokenProvider :: "remote \<Rightarrow> (exn + unit) \<times> remote" where
  "tokenProvider w =
     (case faults w TokenProvider of
        Some m \<Rightarrow> (Inl (Error m), received CallTokenProvider w)
      | None \<Rightarrow> (Inr (), received CallTokenProvider w))"

text \<open>
  The secondary retrieval path: the REST \<^verbatim>\<open>items\<close> request for a path at a branch, with
  \<^verbatim>\<open>includeContent=true\<close>.
\<close>

definition fetch_items :: "string \<Rightarrow> string \<Rightarrow> string \<Rightarrow> remote \<Rightarrow> (exn + response) \<times> remote" where
  "fetch_items repositoryId p version w =
     (case faults w Fetch of
        Some m \<Rightarrow> (Inl (Error m), received (CallFetch repositoryId p version) w)
      | None \<Rightarrow>
          (Inr (case file_at w version p of
                  None \<Rightarrow> Response False None
                | Some c \<Rightarrow> Response True (Some c)),
           received (CallFetch repositoryId p version) w))"

text \<open>
  A ref update is applied if its expected old commit id is the ref's tip, the null object
  id standing for a ref that does not exist yet.
\<close>

definition apply_ref_update :: "GitRefUpdate \<Rightarrow> string \<Rightarrow> (string \<times> string) list \<Rightarrow> (string \<times> string) list option" where
  "apply_ref_update u new rs =
     (case map_of rs (refName u) of
        None \<Rightarrow> if oldObjectId u = NULL_OBJECT_ID then Some (rs @ [(refName u, new)]) else None
      | Some tip \<Rightarrow> if oldObjectId u = tip then Some (AList.update (refName u) new rs) else None)"

definition updateRefs :: "GitRefUpdate list \<Rightarrow> string \<Rightarrow> remote \<Rightarrow> (exn + unit) \<times> remote" where
  "updateRefs us repositoryId w =
     (let w' = received (CallUpdateRefs us repositoryId) w in
      case faults w UpdateRefs of
        Some m \<Rightarrow> (Inl (Error m), w')
      | None \<Rightarrow>
          (case us of
             [u] \<Rightarrow>
               (case newObjectId u of
                  None \<Rightarrow> (Inl (Error ''The ref update names no new object id''), w')
                | Some new \<Rightarrow>
                    (case apply_ref_update u new (refs w) of
                       None \<Rightarrow> (Inl (Error ''The ref update was rejected: stale old object id''), w')
                     | Some rs \<Rightarrow> (Inr (), w'\<lparr>refs := rs\<rparr>)))
           | _ \<Rightarrow> (Inl (Error ''Exactly one ref update is expected''), w')))"

definition apply_change :: "GitChange \<Rightarrow> (string \<times> string) list \<Rightarrow> (string \<times> string) list option" where
  "apply_change ch files =
     (let p = normalize_path (item_path ch) in
      case changeType ch of
        Add \<Rightarrow> if p \<in> fst ` set files then None else Some (files @ [(p, newContent ch)])
      | Edit \<Rightarrow> if p \<in> fst ` set files then Some (AList.update p (newContent ch) files) else None)"

fun apply_changes :: "GitChange list \<Rightarrow> (string \<times> string) list \<Rightarrow> (string \<times> string) list option" where
  "apply_changes [] files = Some files"
| "apply_changes (ch # chs) files =
     (case apply_change ch files of None \<Rightarrow> None | Some files' \<Rightarrow> apply_changes chs files')"

text \<open>The pushes the tools submit have one ref update and one commit; the result lists
  the commits created, as the JSON objects the service returns.\<close>

definition createPush :: "GitPush \<Rightarrow> string \<Rightarrow> remote \<Rightarrow> (exn + json list) \<times> remote" where
  "createPush push repositoryId w =
     (let w' = received (CallCreatePush push repositoryId) w in
      case faults w CreatePush of
        Some m \<Rightarrow> (Inl (Error m), w')
      | None \<Rightarrow>
          (case (refUpdates push, commits push) of
             ([u], [c]) \<Rightarrow>
               (let new = commit_id w (oldObjectId u) c;
                    files = (case map_of (trees w) (oldObjectId u) of None \<Rightarrow> [] | Some fs \<Rightarrow> fs)
                in if map_of (refs w) (refName u) \<noteq> Some (oldObjectId u)
                   then (Inl (Error ''The push was rejected: the ref has been updated by another client''), w')
                   else (case apply_changes (changes c) files of
                           None \<Rightarrow> (Inl (Error ''The push was rejected: a change does not apply''), w')
                         | Some files' \<Rightarrow>
                             (Inr [JObj [(''commitId'', JStr new)]],
                              w'\<lparr>refs := AList.update (refName u) new (refs w),
                                  trees := AList.update new files' (trees w)\<rparr>)))
           | _ \<Rightarrow> (Inl (Error ''Exactly one ref update and one commit are expected''), w')))"

section \<open>The tool \<^verbatim>\<open>create_feature_switch\<close>\<close>

definition toLowerCase_char :: "char \<Rightarrow> char" where
  "toLowerCase_char c =
     (let n = (of_char c :: nat) in
      if (65 \<le> n \<and> n \<le> 90) \<or> (192 \<le> n \<and> n \<le> 222 \<and> n \<noteq> 215) then char_of (n + 32) else c)"

definition toLowerCase :: "string \<Rightarrow> string" where
  "toLowerCase s = map toLowerCase_char s"

text \<open>\<^verbatim>\<open>s.replace(/[^a-z0-9]/g, '-')\<close>\<close>

definition replace_non_alphanumeric :: "string \<Rightarrow> string" where
  "replace_non_alphanumeric s =
     map (\<lambda>c. let n = (of_char c :: nat) in
               if (97 \<le> n \<and> n \<le> 122) \<or> (48 \<le> n \<and> n \<le> 57) then c else CHR ''-'') s"

definition quoted :: "string \<Rightarrow> string" where
  "quoted s = [CHR 0x27] @ s @ [CHR 0x27]"

definition finalBranchName :: "string option \<Rightarrow> string \<Rightarrow> string" where
  "finalBranchName branchName featureName =
     (case branchName of
        Some b \<Rightarrow> if b \<noteq> [] then b else ''feature/'' @ replace_non_alphanumeric (toLowerCase featureName)
      | None \<Rightarrow> ''feature/'' @ replace_non_alphanumeric (toLowerCase featureName))"

definition featureConfig :: "string \<Rightarrow> string \<Rightarrow> json" where
  "featureConfig featureName description =
     JObj [(''Id'', JStr featureName),
           (''Description'', JStr description),
           (''Environments'',
            JObj [(''onebox'', JObj []), (''test'', JObj []), (''cst'', JObj []),
                  (''dxt'', JObj []), (''msit'', JObj []), (''prod'', JObj []),
                  (''mc'', JObj []), (''gcc'', JObj []), (''gcchigh'', JObj []),
                  (''dod'', JObj []), (''usnat'', JObj []), (''ussec'', JObj [])])]"

definition featureFilePath :: "string \<Rightarrow> string" where
  "featureFilePath featureName = ''Features/Configuration/Features/'' @ featureName @ ''.json''"

definition createFilePush :: "string \<Rightarrow> string \<Rightarrow> string \<Rightarrow> string \<Rightarrow> GitPush" where
  "createFilePush branch featureName description sourceCommit =
     \<lparr>refUpdates = [\<lparr>refName = ''refs/heads/'' @ branch, oldObjectId = sourceCommit,
                      newObjectId = None\<rparr>],
      commits = [\<lparr>comment = ''Add feature switch configuration for '' @ featureName,
                  changes = [\<lparr>changeType = Add,
                              item_path = ''/'' @ featureFilePath featureName,
                              newContent = JSON_stringify (featureConfig featureName description)\<rparr>]\<rparr>]\<rparr>"

text \<open>\<^verbatim>\<open>JSON.stringify(result.commits?.[0], null, 2)\<close> inside a template literal.\<close>

definition first_commit_text :: "json list \<Rightarrow> string" where
  "first_commit_text cs = (case cs of [] \<Rightarrow> ''undefined'' | c # _ \<Rightarrow> JSON_stringify c)"

text \<open>Step 1 of the \<^verbatim>\<open>try\<close> block creates the branch; its result is the commit the
  source branch points to.\<close>

definition createBranch :: "string \<Rightarrow> string \<Rightarrow> string \<Rightarrow> remote \<Rightarrow> (exn + string) \<times> remote" where
  "createBranch repositoryId sourceBranch branch w =
     (case getRefs repositoryId (''heads/'' @ sourceBranch) w of
        (Inl e, w1) \<Rightarrow> (Inl e, w1)
      | (Inr sourceRef, w1) \<Rightarrow>
          (case sourceRef of
             [] \<Rightarrow> (Inl (Error (''Source branch '' @ quoted sourceBranch @ '' not found'')), w1)
           | r # _ \<Rightarrow>
               (let sourceCommit = objectId r;
                    newBranchRef = \<lparr>refName = ''refs/heads/'' @ branch,
                                    oldObjectId = NULL_OBJECT_ID,
                                    newObjectId = Some sourceCommit\<rparr>
                in case updateRefs [newBranchRef] repositoryId w1 of
                     (Inl e, w2) \<Rightarrow> (Inl e, w2)
                   | (Inr u, w2) \<Rightarrow> (Inr sourceCommit, w2))))"

text \<open>Step 2 commits the configuration file on the new branch.\<close>

definition createFile :: "string \<Rightarrow> string \<Rightarrow> string \<Rightarrow> string \<Rightarrow> string \<Rightarrow> remote \<Rightarrow> (exn + string) \<times> remote" where
  "createFile repositoryId featureName description branch sourceCommit w =
     (case createPush (createFilePush branch featureName description sourceCommit) repositoryId w of
        (Inl e, w3) \<Rightarrow> (Inl e, w3)
      | (Inr result, w3) \<Rightarrow>
          (Inr (''Feature switch '' @ quoted featureName @ '' created successfully!''
                @ newline @ newline @ ''Branch: '' @ branch
                @ newline @ ''File: '' @ featureFilePath featureName
                @ newline @ newline @ ''Configuration:'' @ newline
                @ JSON_stringify (featureConfig featureName description)
                @ newline @ newline @ ''Commit: '' @ first_commit_text result),
           w3))"

definition create_steps :: "string \<Rightarrow> string \<Rightarrow> string \<Rightarrow> string \<Rightarrow> string option \<Rightarrow> remote \<Rightarrow> (exn + string) \<times> remote" where
  "create_steps repositoryId featureName description sourceBranch branchName w =
     (case createBranch repositoryId sourceBranch (finalBranchName branchName featureName) w of
        (Inl e, w2) \<Rightarrow> (Inl e, w2)
      | (Inr sourceCommit, w2) \<Rightarrow>
          createFile repositoryId featureName description
            (finalBranchName branchName featureName) sourceCommit w2)"

text \<open>
  The handler: \<open>Inl\<close> is the error it throws, \<open>Inr\<close> the text it returns. The connection
  is opened before the \<^verbatim>\<open>try\<close> block; the \<^verbatim>\<open>catch\<close> clause wraps every error of the block.
\<close>

definition create_feature_switch :: "string \<Rightarrow> string \<Rightarrow> string \<Rightarrow> string \<Rightarrow> string option \<Rightarrow> remote \<Rightarrow> (exn + string) \<times> remote" where
  "create_feature_switch repositoryId featureName description sourceBranch branchName w =
     (case connectionProvider w of
        (Inl e, w') \<Rightarrow> (Inl e, w')
      | (Inr c, w') \<Rightarrow>
          (case getGitApi w' of
             (Inl e, w'') \<Rightarrow> (Inl e, w'')
           | (Inr g, w'') \<Rightarrow>
               (case create_steps repositoryId featureName description sourceBranch branchName w'' of
                  (Inl e, w3) \<Rightarrow> (Inl (Error (''Failed to create feature switch: '' @ message e)), w3)
                | (Inr t, w3) \<Rightarrow> (Inr t, w3))))"

section \<open>The tool \<^verbatim>\<open>update_feature_switch\<close>\<close>

record update_args =
  repositoryId :: string
  branchName :: string
  featureName :: string
  stage :: string
  tenantIds :: "string list option"
  rolloutName :: "string option"
  enabled :: bool
  commitMessage :: "string option"

text \<open>Step 1: the current tip of the branch.\<close>

definition resolveTip :: "update_args \<Rightarrow> remote \<Rightarrow> (exn + string) \<times> remote" where
  "resolveTip a w =
     (case getBranch (repositoryId a) (branchName a) w of
        (Inl e, w1) \<Rightarrow> (Inl e, w1)
      | (Inr branch, w1) \<Rightarrow>
          (case commit_commitId branch of
             None \<Rightarrow> (Inl (Error (''Could not find latest commit for branch '' @ branchName a)), w1)
           | Some latestCommitId \<Rightarrow>
               if latestCommitId = []
               then (Inl (Error (''Could not find latest commit for branch '' @ branchName a)), w1)
               else (Inr latestCommitId, w1)))"

text \<open>\<^verbatim>\<open>error?.message || error\<close> inside a template literal.\<close>

definition message_or_error :: "exn \<Rightarrow> string" where
  "message_or_error e = (if message e \<noteq> [] then message e else error_to_string e)"

definition could_not_find_file :: "update_args \<Rightarrow> exn \<Rightarrow> exn" where
  "could_not_find_file a e =
     Error (''Could not find file: '' @ featureFilePath (featureName a) @ '' on branch: ''
            @ branchName a @ ''. Error: '' @ message_or_error e)"

text \<open>The \<^verbatim>\<open>catch\<close> clause of the primary path: one REST request with a fresh token;
  \<open>e\<close> is the error of the primary path.\<close>

definition fallback :: "update_args \<Rightarrow> exn \<Rightarrow> remote \<Rightarrow> (exn + string option) \<times> remote" where
  "fallback a e w =
     (case tokenProvider w of
        (Inl fallbackError, w1) \<Rightarrow> (Inl (could_not_find_file a e), w1)
      | (Inr token, w1) \<Rightarrow>
          (case fetch_items (repositoryId a) (featureFilePath (featureName a)) (branchName a) w1 of
             (Inl fallbackError, w2) \<Rightarrow> (Inl (could_not_find_file a e), w2)
           | (Inr (Response ok content), w2) \<Rightarrow>
               if ok then (Inr content, w2) else (Inl (could_not_find_file a e), w2)))"

text \<open>Step 2: the content of the file, by the primary path and on its failure by the
  fallback; an absent or empty content is an error.\<close>

definition fetchContent :: "update_args \<Rightarrow> remote \<Rightarrow> (exn + string) \<times> remote" where
  "fetchContent a w =
     (case (case getItemContent (repositoryId a) (featureFilePath (featureName a)) (branchName a) w of
              (Inl e, w1) \<Rightarrow> fallback a e w1
            | (Inr None, w1) \<Rightarrow> fallback a (Error ''No content stream returned'') w1
            | (Inr (Some c), w1) \<Rightarrow> (Inr (Some c), w1)) of
        (Inl e, w2) \<Rightarrow> (Inl e, w2)
      | (Inr fileContent, w2) \<Rightarrow>
          (case fileContent of
             None \<Rightarrow> (Inl (Error (''Could not find feature switch file content: ''
                                   @ featureFilePath (featureName a))), w2)
           | Some c \<Rightarrow>
               if c = []
               then (Inl (Error (''Could not find feature switch file content: ''
                                  @ featureFilePath (featureName a))), w2)
               else (Inr c, w2)))"

text \<open>The stage configuration the request asks for.\<close>

definition hasRequirements :: "update_args \<Rightarrow> bool" where
  "hasRequirements a =
     ((case rolloutName a of None \<Rightarrow> False | Some r \<Rightarrow> r \<noteq> [])
      \<or> (case tenantIds a of None \<Rightarrow> False | Some ts \<Rightarrow> length ts > 0))"

definition requirement :: "string \<Rightarrow> json list \<Rightarrow> json" where
  "requirement pivot vals =
     JObj [(''Name'', JStr ''PowerBI.MemberOf''),
           (''Parameters'', JObj [(''Pivot'', JStr pivot), (''Values'', JArr vals)])]"

definition requires :: "update_args \<Rightarrow> json list" where
  "requires a =
     (case rolloutName a of
        None \<Rightarrow> []
      | Some r \<Rightarrow> if r \<noteq> [] then [requirement ''RolloutName'' [JStr r]] else [])
     @ (case tenantIds a of
          None \<Rightarrow> []
        | Some ts \<Rightarrow> if length ts > 0 then [requirement ''TenantObjectId'' (map JStr ts)] else [])"

definition stageConfig :: "update_args \<Rightarrow> json" where
  "stageConfig a =
     (if \<not> hasRequirements a then JObj [(''Enabled'', JBool (enabled a))]
      else JObj [(''Requires'', JArr (requires a))])"

text \<open>Steps 3 to 5: parse the content, check the \<^verbatim>\<open>Environments\<close> section and the stage,
  replace the stage's configuration. The result is \<^verbatim>\<open>currentConfig\<close> after the assignment.\<close>

definition mutateConfig :: "update_args \<Rightarrow> string \<Rightarrow> exn + json" where
  "mutateConfig a fileContent =
     (case JSON_parse fileContent of
        None \<Rightarrow> Inl (SyntaxError ''Unexpected token in JSON'')
      | Some currentConfig \<Rightarrow>
          (case get_property currentConfig ''Environments'' of
             Inl e \<Rightarrow> Inl e
           | Inr environments \<Rightarrow>
               (case environments of
                  None \<Rightarrow> Inl (Error (quoted ''Environments'' @ '' section not found in feature switch configuration''))
                | Some envs \<Rightarrow>
                    if \<not> truthy envs
                    then Inl (Error (quoted ''Environments'' @ '' section not found in feature switch configuration''))
                    else
                      (case call_hasOwnProperty envs (stage a) of
                         Inl e \<Rightarrow> Inl e
                       | Inr has \<Rightarrow>
                           if \<not> has
                           then Inl (Error (''Stage '' @ quoted (stage a)
                                            @ '' not found in Environments section. Available stages: ''
                                            @ join '', '' (Object_keys envs)))
                           else
                             (case assign_property envs (stage a) (stageConfig a) of
                                Inl e \<Rightarrow> Inl e
                              | Inr envs' \<Rightarrow> assign_property currentConfig ''Environments'' envs')))))"

text \<open>\<^verbatim>\<open>currentConfig.Environments[stage]\<close> read back for the result.\<close>

definition updatedConfig :: "update_args \<Rightarrow> json \<Rightarrow> json option" where
  "updatedConfig a currentConfig =
     (case get_property currentConfig ''Environments'' of
        Inr (Some envs) \<Rightarrow> (case get_property envs (stage a) of Inr x \<Rightarrow> x | Inl e \<Rightarrow> None)
      | _ \<Rightarrow> None)"

text \<open>Steps 6 and 7: the push of the serialized document, conditioned on the tip of step 1.\<close>

definition updatePush :: "update_args \<Rightarrow> string \<Rightarrow> json \<Rightarrow> GitPush" where
  "updatePush a latestCommitId currentConfig =
     \<lparr>refUpdates = [\<lparr>refName = ''refs/heads/'' @ branchName a, oldObjectId = latestCommitId,
                      newObjectId = None\<rparr>],
      commits = [\<lparr>comment =
                    (case commitMessage a of
                       Some m \<Rightarrow> if m \<noteq> [] then m
                                 else ''Update feature switch '' @ featureName a @ '' for '' @ stage a
                                      @ '' stage with tenant IDs''
                     | None \<Rightarrow> ''Update feature switch '' @ featureName a @ '' for '' @ stage a
                               @ '' stage with tenant IDs''),
                  changes = [\<lparr>changeType = Edit,
                              item_path = ''/'' @ featureFilePath (featureName a),
                              newContent = JSON_stringify currentConfig\<rparr>]\<rparr>]\<rparr>"

text \<open>\<^verbatim>\<open>result.commits?.[0]?.commitId\<close>\<close>

definition first_commitId :: "json list \<Rightarrow> json option" where
  "first_commitId cs =
     (case cs of
        [] \<Rightarrow> None
      | c # _ \<Rightarrow> (case get_property c ''commitId'' of Inr x \<Rightarrow> x | Inl e \<Rightarrow> None))"

definition tenantIds_json :: "update_args \<Rightarrow> json option" where
  "tenantIds_json a = map_option (\<lambda>ts. JArr (map JStr ts)) (tenantIds a)"

definition success_payload :: "update_args \<Rightarrow> json list \<Rightarrow> json \<Rightarrow> json" where
  "success_payload a result currentConfig =
     JObj (defined_properties
       [(''success'', Some (JBool True)),
        (''message'', Some (JStr (''Successfully updated feature switch '' @ featureName a
                                   @ '' for '' @ stage a @ '' stage''))),
        (''branchName'', Some (JStr (branchName a))),
        (''filePath'', Some (JStr (featureFilePath (featureName a)))),
        (''commitId'', first_commitId result),
        (''tenantIds'', tenantIds_json a),
        (''stage'', Some (JStr (stage a))),
        (''updatedConfig'', updatedConfig a currentConfig)])"

definition failure_payload :: "update_args \<Rightarrow> exn \<Rightarrow> json" where
  "failure_payload a e =
     JObj (defined_properties
       [(''success'', Some (JBool False)),
        (''error'', Some (JStr (message e))),
        (''repositoryId'', Some (JStr (repositoryId a))),
        (''branchName'', Some (JStr (branchName a))),
        (''featureName'', Some (JStr (featureName a))),
        (''stage'', Some (JStr (stage a))),
        (''tenantIds'', tenantIds_json a)])"

text \<open>
  Each tool invocation may run while other clients write to the repository: \<open>other1\<close> is
  what they do to the remote state between the reading of the tip and the reading of the
  content, \<open>other2\<close> what they do between the reading of the content and the push.

  Steps 1 to 6 read and compute: their result is the tip read in step 1 and the document to
  be written.
\<close>

definition prepare :: "(remote \<Rightarrow> remote) \<Rightarrow> update_args \<Rightarrow> remote \<Rightarrow> (exn + string \<times> json) \<times> remote" where
  "prepare other1 a w =
     (case resolveTip a w of
        (Inl e, w1) \<Rightarrow> (Inl e, w1)
      | (Inr latestCommitId, w1) \<Rightarrow>
          (case fetchContent a (other1 w1) of
             (Inl e, w2) \<Rightarrow> (Inl e, w2)
           | (Inr fileContent, w2) \<Rightarrow>
               (case mutateConfig a fileContent of
                  Inl e \<Rightarrow> (Inl e, w2)
                | Inr currentConfig \<Rightarrow> (Inr (latestCommitId, currentConfig), w2))))"

text \<open>The body of the \<^verbatim>\<open>try\<close> block: steps 1 to 6, then the push of step 7.\<close>

definition update_steps :: "(remote \<Rightarrow> remote) \<Rightarrow> (remote \<Rightarrow> remote) \<Rightarrow> update_args \<Rightarrow> remote \<Rightarrow> (exn + json) \<times> remote" where
  "update_steps other1 other2 a w =
     (case prepare other1 a w of
        (Inl e, w2) \<Rightarrow> (Inl e, w2)
      | (Inr (latestCommitId, currentConfig), w2) \<Rightarrow>
          (case createPush (updatePush a latestCommitId currentConfig) (repositoryId a)
                  (other2 w2) of
             (Inl e, w3) \<Rightarrow> (Inl e, w3)
           | (Inr result, w3) \<Rightarrow> (Inr (success_payload a result currentConfig), w3)))"

text \<open>
  The handler among other clients: \<open>Inl\<close> is the error it throws, \<open>Inr\<close> the text it
  returns. The \<^verbatim>\<open>catch\<close> clause turns every error of the block into a returned payload.
\<close>

definition update_feature_switch_among :: "(remote \<Rightarrow> remote) \<Rightarrow> (remote \<Rightarrow> remote) \<Rightarrow> update_args \<Rightarrow> remote \<Rightarrow> (exn + string) \<times> remote" where
  "update_feature_switch_among other1 other2 a w =
     (case connectionProvider w of
        (Inl e, w') \<Rightarrow> (Inl e, w')
      | (Inr c, w') \<Rightarrow>
          (case getGitApi w' of
             (Inl e, w'') \<Rightarrow> (Inl e, w'')
           | (Inr g, w'') \<Rightarrow>
               (case update_steps other1 other2 a w'' of
                  (Inl e, w3) \<Rightarrow> (Inr (JSON_stringify (failure_payload a e)), w3)
                | (Inr payload, w3) \<Rightarrow> (Inr (JSON_stringify payload), w3))))"

text \<open>The handler when nobody else writes during the invocation.\<close>

definition update_feature_switch :: "update_args \<Rightarrow> remote \<Rightarrow> (exn + string) \<times> remote" where
  "update_feature_switch a w = update_feature_switch_among id id a w"

section \<open>Observing the calls a tool makes\<close>

fun is_push :: "event \<Rightarrow> bool" where
  "is_push (CallCreatePush p r) = True"
| "is_push e = False"

fun is_ref_update :: "event \<Rightarrow> bool" where
  "is_ref_update (CallUpdateRefs us r) = True"
| "is_ref_update e = False"

text \<open>The remote state once a handler has obtained its connection and its Git client.\<close>

definition connected :: "remote \<Rightarrow> remote" where
  "connected w = received CallGetGitApi (received CallConnectionProvider w)"

text \<open>The error a push meets on a remote whose branch tip is not the expected one.\<close>

definition push_error :: "remote \<Rightarrow> exn" where
  "push_error w =
     (case faults w CreatePush of
        Some m \<Rightarrow> Error m
      | None \<Rightarrow> Error ''The push was rejected: the ref has been updated by another client'')"

section \<open>Documents and their tokens\<close>

text \<open>
  The keys of an object a JavaScript program can hold are distinct, and an array index
  never follows a key that is no array index or an array index that is not smaller.
\<close>

fun js_ordered :: "string list \<Rightarrow> bool" where
  "js_ordered [] = True"
| "js_ordered [k] = True"
| "js_ordered (k # k' # ks) =
     ((array_index k' \<longrightarrow> array_index k \<and> nat_of_digits k < nat_of_digits k')
      \<and> js_ordered (k' # ks))"

definition wf_keys :: "string list \<Rightarrow> bool" where
  "wf_keys ks = (distinct ks \<and> js_ordered ks)"

fun wf_json :: "json \<Rightarrow> bool" where
  "wf_json (JArr xs) = (\<forall>x \<in> set xs. wf_json x)"
| "wf_json (JObj kvs) = (wf_keys (map fst kvs) \<and> (\<forall>kv \<in> set kvs. wf_json (snd kv)))"
| "wf_json v = True"

text \<open>The tokens of the text \<^verbatim>\<open>JSON.stringify\<close> writes for a value.\<close>

fun separated :: "token list list \<Rightarrow> token list" where
  "separated [] = []"
| "separated [ts] = ts"
| "separated (ts # us # rest) = ts @ TComma # separated (us # rest)"

fun tokens :: "json \<Rightarrow> token list" where
  "tokens JNull = [TNull]"
| "tokens (JBool b) = [if b then TTrue else TFalse]"
| "tokens (JNum i) = [TNumber i]"
| "tokens (JStr s) = [TString s]"
| "tokens (JArr xs) = TLBracket # separated (map tokens xs) @ [TRBracket]"
| "tokens (JObj kvs) =
     TLBrace # separated (map (\<lambda>kv. TString (fst kv) # TColon # tokens (snd kv)) kvs) @ [TRBrace]"

text \<open>A text before which a number literal ends.\<close>

definition number_end :: "string \<Rightarrow> bool" where
  "number_end s = (s = [] \<or> \<not> is_digit (hd s) \<and> hd s \<notin> {CHR ''.'', CHR ''e'', CHR ''E''})"

section \<open>Example inputs\<close>

definition example_content :: string where
  \<open>example_content = ''{"Environments": {"prod": {"Requires": []}, "test": {}}, "Owner": "x"}''\<close>

definition example_document :: json where
  "example_document =
     JObj [(''Environments'', JObj [(''prod'', JObj [(''Requires'', JArr [])]), (''test'', JObj [])]),
           (''Owner'', JStr ''x'')]"

definition example_remote :: remote where
  "example_remote =
     \<lparr>refs = [(''refs/heads/master'', ''c1'')],
      trees = [(''c1'', [(''/Features/Configuration/Features/F.json'', example_content)])],
      faults = (\<lambda>c. None),
      commit_id = (\<lambda>parent c. parent @ ''+''),
      log = []\<rparr>"

definition toggle_request :: update_args where
  "toggle_request =
     \<lparr>repositoryId = ''R'', branchName = ''master'', featureName = ''F'', stage = ''prod'',
      tenantIds = None, rolloutName = None, enabled = True, commitMessage = None\<rparr>"

definition membership_request :: update_args where
  "membership_request =
     toggle_request\<lparr>tenantIds := Some [''t1'', ''t2''], rolloutName := Some ''daily''\<rparr>"

text \<open>Another client advances the branch \<^verbatim>\<open>master\<close> to a commit of its own.\<close>

definition other_writer :: "remote \<Rightarrow> remote" where
  "other_writer w =
     w\<lparr>refs := AList.update ''refs/heads/master'' ''c2'' (refs w),
       trees := (''c2'', [(''/Features/Configuration/Features/F.json'', ''{}'')]) # trees w\<rparr>"

text \<open>A remote on which the calls of one kind fail.\<close>

definition failing :: "call \<Rightarrow> string \<Rightarrow> remote \<Rightarrow> remote" where
  "failing c m w = w\<lparr>faults := (\<lambda>x. if x = c then Some m else faults w x)\<rparr>"

text \<open>A document one of whose stages is named like a method every object inherits.\<close>

definition shadowing_content :: string where
  \<open>shadowing_content = ''{"Environments": {"hasOwnProperty": {}, "test": {}}}''\<close>

definition shadowing_remote :: remote where
  "shadowing_remote =
     example_remote\<lparr>trees := [(''c1'', [(''/Features/Configuration/Features/F.json'', shadowing_content)])]\<rparr>"

definition canary_request :: update_args where
  "canary_request = toggle_request\<lparr>stage := ''canary''\<rparr>"

text \<open>A repository whose branch \<^verbatim>\<open>master\<close> has no files yet.\<close>

definition empty_remote :: remote where
  "empty_remote =
     \<lparr>refs = [(''refs/heads/master'', ''c1'')], trees = [(''c1'', [])], faults = (\<lambda>c. None),
      commit_id = (\<lambda>parent c. parent @ ''+''), log = []\<rparr>"

section \<open>The stage configuration written by an update\<close>

lemma map_of_insert_index_same: "map_of (insert_index k v kvs) k = Some v"
  by (induction kvs) auto

lemma map_of_define_property_same: "map_of (define_property kvs k v) k = Some v"
  by (simp add: define_property_def map_of_insert_index_same update_conv')

lemma get_property_assigned:
  assumes "call_hasOwnProperty envs k = Inr True" and "assign_property envs k x = Inr envs'"
  shows "get_property envs' k = Inr (Some x)"
proof (cases envs)
  case (JObj kvs)
  with assms show ?thesis by (auto simp: map_of_define_property_same)
next
  case (JArr xs)
  with assms show ?thesis by (auto simp: index_below_def split: if_splits)
qed (use assms in auto)

lemma mutateConfig_steps:
  assumes "mutateConfig a content = Inr cfg"
  obtains kvs envs envs' where
    "JSON_parse content = Some (JObj kvs)"
    "map_of kvs ''Environments'' = Some envs"
    "call_hasOwnProperty envs (stage a) = Inr True"
    "assign_property envs (stage a) (stageConfig a) = Inr envs'"
    "cfg = JObj (define_property kvs ''Environments'' envs')"
proof -
  from assms obtain doc envs envs' where
    doc: "JSON_parse content = Some doc"
    and envs: "get_property doc ''Environments'' = Inr (Some envs)"
    and has: "call_hasOwnProperty envs (stage a) = Inr True"
    and asg: "assign_property envs (stage a) (stageConfig a) = Inr envs'"
    and cfg: "assign_property doc ''Environments'' envs' = Inr cfg"
    by (auto simp: mutateConfig_def split: option.splits sum.splits if_splits)
  from envs obtain kvs where kvs: "doc = JObj kvs"
    by (cases doc) (auto simp: index_below_def array_index_def is_digit_def split: if_splits)
  with doc envs has asg cfg that show thesis by auto
qed

lemma mutateConfig_written:
  assumes "mutateConfig a content = Inr cfg"
  shows "updatedConfig a cfg = Some (stageConfig a)"
proof -
  from assms obtain kvs envs envs' where
    has: "call_hasOwnProperty envs (stage a) = Inr True"
    and asg: "assign_property envs (stage a) (stageConfig a) = Inr envs'"
    and cfg: "cfg = JObj (define_property kvs ''Environments'' envs')"
    by (rule mutateConfig_steps)
  from cfg have "get_property cfg ''Environments'' = Inr (Some envs')"
    by (simp add: map_of_define_property_same)
  moreover from get_property_assigned[OF has asg]
  have "get_property envs' (stage a) = Inr (Some (stageConfig a))" .
  ultimately show ?thesis by (simp add: updatedConfig_def)
qed

lemma define_property_existing:
  "k \<in> fst ` set kvs \<Longrightarrow> define_property kvs k v = AList.update k v kvs"
  by (simp add: define_property_def)

lemma mutateConfig_object:
  assumes "JSON_parse content = Some (JObj kvs)"
    and "map_of kvs ''Environments'' = Some (JObj es)"
    and "mutateConfig a content = Inr cfg"
  shows "stage a \<in> fst ` set es
    \<and> cfg = JObj (AList.update ''Environments''
                    (JObj (AList.update (stage a) (stageConfig a) es)) kvs)"
proof -
  from assms(3) obtain kvs' envs envs' where
    p: "JSON_parse content = Some (JObj kvs')"
    and e: "map_of kvs' ''Environments'' = Some envs"
    and has: "call_hasOwnProperty envs (stage a) = Inr True"
    and asg: "assign_property envs (stage a) (stageConfig a) = Inr envs'"
    and cfg: "cfg = JObj (define_property kvs' ''Environments'' envs')"
    by (rule mutateConfig_steps)
  from p e assms(1,2) have k: "kvs' = kvs" and en: "envs = JObj es" by simp_all
  from has en have st: "stage a \<in> fst ` set es" by (auto split: if_splits)
  from asg en st have "envs' = JObj (AList.update (stage a) (stageConfig a) es)"
    by (auto simp: define_property_existing)
  moreover from assms(2) have "''Environments'' \<in> fst ` set kvs"
    by (auto dest!: map_of_SomeD simp: image_iff intro: bexI[of _ "(''Environments'', JObj es)"])
  ultimately show ?thesis using cfg k st by (simp add: define_property_existing)
qed

lemma parse_example_content: "JSON_parse example_content = Some example_document"
  by code_simp

text \<open>
  Claim C3. When a request supplies a non-empty rollout name and a non-empty list of tenant
  ids, the \<^verbatim>\<open>Requires\<close> array assigned to \<^verbatim>\<open>Environments[stage]\<close> has exactly two elements:
  at index 0 the requirement with pivot \<^verbatim>\<open>RolloutName\<close> and the rollout name as its only
  value, at index 1 the requirement with pivot \<^verbatim>\<open>TenantObjectId\<close> and the tenant ids, in
  input order, as its values. When only one of the two is supplied, its requirement is the
  only element. The document written is the one read with this value put at
  \<^verbatim>\<open>Environments[stage]\<close>.
\<close>

theorem requires_order:
  "(rolloutName a = Some r \<and> r \<noteq> [] \<and> tenantIds a = Some ts \<and> ts \<noteq> [] \<longrightarrow>
      stageConfig a = JObj [(''Requires'',
        JArr [JObj [(''Name'', JStr ''PowerBI.MemberOf''),
                    (''Parameters'', JObj [(''Pivot'', JStr ''RolloutName''),
                                           (''Values'', JArr [JStr r])])],
              JObj [(''Name'', JStr ''PowerBI.MemberOf''),
                    (''Parameters'', JObj [(''Pivot'', JStr ''TenantObjectId''),
                                           (''Values'', JArr (map JStr ts))])]])])
   \<and> (rolloutName a = Some r \<and> r \<noteq> [] \<and> (tenantIds a = None \<or> tenantIds a = Some []) \<longrightarrow>
      stageConfig a = JObj [(''Requires'',
        JArr [JObj [(''Name'', JStr ''PowerBI.MemberOf''),
                    (''Parameters'', JObj [(''Pivot'', JStr ''RolloutName''),
                                           (''Values'', JArr [JStr r])])]])])
   \<and> (tenantIds a = Some ts \<and> ts \<noteq> [] \<and> (rolloutName a = None \<or> rolloutName a = Some []) \<longrightarrow>
      stageConfig a = JObj [(''Requires'',
        JArr [JObj [(''Name'', JStr ''PowerBI.MemberOf''),
                    (''Parameters'', JObj [(''Pivot'', JStr ''TenantObjectId''),
                                           (''Values'', JArr (map JStr ts))])]])])
   \<and> (JSON_parse content = Some (JObj kvs) \<and> map_of kvs ''Environments'' = Some (JObj es)
        \<and> mutateConfig a content = Inr cfg \<longrightarrow>
      cfg = JObj (AList.update ''Environments''
                    (JObj (AList.update (stage a) (stageConfig a) es)) kvs))
   \<and> (mutateConfig a content = Inr cfg \<longrightarrow> updatedConfig a cfg = Some (stageConfig a))"
proof -
  have s: "(rolloutName a = Some r \<and> r \<noteq> [] \<and> tenantIds a = Some ts \<and> ts \<noteq> [] \<longrightarrow>
      stageConfig a = JObj [(''Requires'',
        JArr [JObj [(''Name'', JStr ''PowerBI.MemberOf''),
                    (''Parameters'', JObj [(''Pivot'', JStr ''RolloutName''),
                                           (''Values'', JArr [JStr r])])],
              JObj [(''Name'', JStr ''PowerBI.MemberOf''),
                    (''Parameters'', JObj [(''Pivot'', JStr ''TenantObjectId''),
                                           (''Values'', JArr (map JStr ts))])]])])
   \<and> (rolloutName a = Some r \<and> r \<noteq> [] \<and> (tenantIds a = None \<or> tenantIds a = Some []) \<longrightarrow>
      stageConfig a = JObj [(''Requires'',
        JArr [JObj [(''Name'', JStr ''PowerBI.MemberOf''),
                    (''Parameters'', JObj [(''Pivot'', JStr ''RolloutName''),
                                           (''Values'', JArr [JStr r])])]])])
   \<and> (tenantIds a = Some ts \<and> ts \<noteq> [] \<and> (rolloutName a = None \<or> rolloutName a = Some []) \<longrightarrow>
      stageConfig a = JObj [(''Requires'',
        JArr [JObj [(''Name'', JStr ''PowerBI.MemberOf''),
                    (''Parameters'', JObj [(''Pivot'', JStr ''TenantObjectId''),
                                           (''Values'', JArr (map JStr ts))])]])])"
    by (auto simp: stageConfig_def hasRequirements_def requires_def requirement_def)
  have m: "JSON_parse content = Some (JObj kvs) \<and> map_of kvs ''Environments'' = Some (JObj es)
        \<and> mutateConfig a content = Inr cfg \<longrightarrow>
      cfg = JObj (AList.update ''Environments''
                    (JObj (AList.update (stage a) (stageConfig a) es)) kvs)"
    using mutateConfig_object by blast
  have u: "mutateConfig a content = Inr cfg \<longrightarrow> updatedConfig a cfg = Some (stageConfig a)"
    using mutateConfig_written by blast
  from s m u show ?thesis by blast
qed

theorem requires_order_witness:
  "stageConfig membership_request = JObj [(''Requires'',
        JArr [JObj [(''Name'', JStr ''PowerBI.MemberOf''),
                    (''Parameters'', JObj [(''Pivot'', JStr ''RolloutName''),
                                           (''Values'', JArr [JStr ''daily''])])],
              JObj [(''Name'', JStr ''PowerBI.MemberOf''),
                    (''Parameters'', JObj [(''Pivot'', JStr ''TenantObjectId''),
                                           (''Values'', JArr [JStr ''t1'', JStr ''t2''])])]])]
   \<and> stageConfig (membership_request\<lparr>tenantIds := None\<rparr>)
       = JObj [(''Requires'',
        JArr [JObj [(''Name'', JStr ''PowerBI.MemberOf''),
                    (''Parameters'', JObj [(''Pivot'', JStr ''RolloutName''),
                                           (''Values'', JArr [JStr ''daily''])])]])]
   \<and> stageConfig (membership_request\<lparr>rolloutName := None\<rparr>)
       = JObj [(''Requires'',
        JArr [JObj [(''Name'', JStr ''PowerBI.MemberOf''),
                    (''Parameters'', JObj [(''Pivot'', JStr ''TenantObjectId''),
                                           (''Values'', JArr [JStr ''t1'', JStr ''t2''])])]])]
   \<and> JSON_parse example_content
       = Some (JObj [(''Environments'',
                      JObj [(''prod'', JObj [(''Requires'', JArr [])]), (''test'', JObj [])]),
                     (''Owner'', JStr ''x'')])
   \<and> mutateConfig membership_request example_content
       = Inr (JObj [(''Environments'',
                JObj [(''prod'', JObj [(''Requires'',
                   JArr [JObj [(''Name'', JStr ''PowerBI.MemberOf''),
                               (''Parameters'', JObj [(''Pivot'', JStr ''RolloutName''),
                                                      (''Values'', JArr [JStr ''daily''])])],
                         JObj [(''Name'', JStr ''PowerBI.MemberOf''),
                               (''Parameters'', JObj [(''Pivot'', JStr ''TenantObjectId''),
                                                      (''Values'', JArr [JStr ''t1'', JStr ''t2''])])]])]),
                      (''test'', JObj [])]),
               (''Owner'', JStr ''x'')])
   \<and> updatedConfig membership_request
        (JObj [(''Environments'',
                JObj [(''prod'', JObj [(''Requires'',
                   JArr [JObj [(''Name'', JStr ''PowerBI.MemberOf''),
                               (''Parameters'', JObj [(''Pivot'', JStr ''RolloutName''),
                                                      (''Values'', JArr [JStr ''daily''])])],
                         JObj [(''Name'', JStr ''PowerBI.MemberOf''),
                               (''Parameters'', JObj [(''Pivot'', JStr ''TenantObjectId''),
                                                      (''Values'', JArr [JStr ''t1'', JStr ''t2''])])]])]),
                      (''test'', JObj [])]),
               (''Owner'', JStr ''x'')])
       = Some (JObj [(''Requires'',
                   JArr [JObj [(''Name'', JStr ''PowerBI.MemberOf''),
                               (''Parameters'', JObj [(''Pivot'', JStr ''RolloutName''),
                                                      (''Values'', JArr [JStr ''daily''])])],
                         JObj [(''Name'', JStr ''PowerBI.MemberOf''),
                               (''Parameters'', JObj [(''Pivot'', JStr ''TenantObjectId''),
                                                      (''Values'', JArr [JStr ''t1'', JStr ''t2''])])]])])"
  (is "?s1 \<and> ?s2 \<and> ?s3 \<and> ?p \<and> ?m \<and> ?u")
proof -
  let ?both = "JObj [(''Requires'',
                   JArr [JObj [(''Name'', JStr ''PowerBI.MemberOf''),
                               (''Parameters'', JObj [(''Pivot'', JStr ''RolloutName''),
                                                      (''Values'', JArr [JStr ''daily''])])],
                         JObj [(''Name'', JStr ''PowerBI.MemberOf''),
                               (''Parameters'', JObj [(''Pivot'', JStr ''TenantObjectId''),
                                                      (''Values'', JArr [JStr ''t1'', JStr ''t2''])])]])]"
  let ?cfg = "JObj [(''Environments'', JObj [(''prod'', ?both), (''test'', JObj [])]),
               (''Owner'', JStr ''x'')]"
  have p: ?p by code_simp
  have m: "mutateConfig membership_request example_content = Inr ?cfg" by code_simp
  have h1: "rolloutName membership_request = Some ''daily'' \<and> ''daily'' \<noteq> []
      \<and> tenantIds membership_request = Some [''t1'', ''t2''] \<and> [''t1'', ''t2''] \<noteq> ([] :: string list)"
    by (simp add: membership_request_def toggle_request_def)
  have h2: "rolloutName (membership_request\<lparr>tenantIds := None\<rparr>) = Some ''daily'' \<and> ''daily'' \<noteq> []
      \<and> (tenantIds (membership_request\<lparr>tenantIds := None\<rparr>) = None
          \<or> tenantIds (membership_request\<lparr>tenantIds := None\<rparr>) = Some [])"
    by (simp add: membership_request_def toggle_request_def)
  have h3: "tenantIds (membership_request\<lparr>rolloutName := None\<rparr>) = Some [''t1'', ''t2'']
      \<and> [''t1'', ''t2''] \<noteq> ([] :: string list)
      \<and> (rolloutName (membership_request\<lparr>rolloutName := None\<rparr>) = None
          \<or> rolloutName (membership_request\<lparr>rolloutName := None\<rparr>) = Some [])"
    by (simp add: membership_request_def toggle_request_def)
  note t = requires_order [of membership_request "''daily''" "[''t1'', ''t2'']" example_content
      "[(''Environments'', JObj [(''prod'', JObj [(''Requires'', JArr [])]), (''test'', JObj [])]),
        (''Owner'', JStr ''x'')]"
      "[(''prod'', JObj [(''Requires'', JArr [])]), (''test'', JObj [])]" ?cfg]
  from h1 t have "stageConfig membership_request = JObj [(''Requires'',
        JArr [JObj [(''Name'', JStr ''PowerBI.MemberOf''),
                    (''Parameters'', JObj [(''Pivot'', JStr ''RolloutName''),
                                           (''Values'', JArr [JStr ''daily''])])],
              JObj [(''Name'', JStr ''PowerBI.MemberOf''),
                    (''Parameters'', JObj [(''Pivot'', JStr ''TenantObjectId''),
                                           (''Values'', JArr (map JStr [''t1'', ''t2'']))])]])]"
    by blast
  then have s1: ?s1 by simp
  from m t have "updatedConfig membership_request ?cfg = Some (stageConfig membership_request)"
    by blast
  with s1 have u: ?u by simp
  from h2 requires_order
    [of "membership_request\<lparr>tenantIds := None\<rparr>" "''daily''" "[]" "[]" "[]" "[]" JNull]
  have s2: ?s2 by blast
  from h3 requires_order
    [of "membership_request\<lparr>rolloutName := None\<rparr>" "[]" "[''t1'', ''t2'']" "[]" "[]" "[]" JNull]
  have "stageConfig (membership_request\<lparr>rolloutName := None\<rparr>)
       = JObj [(''Requires'',
        JArr [JObj [(''Name'', JStr ''PowerBI.MemberOf''),
                    (''Parameters'', JObj [(''Pivot'', JStr ''TenantObjectId''),
                                           (''Values'', JArr (map JStr [''t1'', ''t2'']))])]])]"
    by blast
  then have s3: ?s3 by simp
  from s1 s2 s3 p m u show ?thesis by blast
qed

text \<open>
  Claim C7, as stated, asks for an \<^verbatim>\<open>EmptyRequirement\<close> error when a request has neither
  tenant ids nor a rollout name. The tool has no such error: the request below, with both
  absent, is carried out as a toggle, and the file pushed to the branch has
  \<^verbatim>\<open>Environments.prod = {Enabled: true}\<close>.
\<close>

theorem empty_request_counterexample:
  "file_at (snd (update_feature_switch toggle_request example_remote)) ''master''
       (featureFilePath ''F'')
     = Some (JSON_stringify
         (JObj [(''Environments'',
                 JObj [(''prod'', JObj [(''Enabled'', JBool True)]), (''test'', JObj [])]),
                (''Owner'', JStr ''x'')]))"
  by code_simp

text \<open>
  Claim C7, amended. A request in which both the tenant ids and the rollout name are empty
  or absent is a plain toggle: the configuration assigned to \<^verbatim>\<open>Environments[stage]\<close> is
  \<^verbatim>\<open>{Enabled: enabled}\<close>. No request makes the tool write an empty \<^verbatim>\<open>Requires\<close> list.
\<close>

theorem empty_request_is_toggle:
  "((rolloutName a = None \<or> rolloutName a = Some []) \<and> (tenantIds a = None \<or> tenantIds a = Some [])
      \<longrightarrow> stageConfig a = JObj [(''Enabled'', JBool (enabled a))])
   \<and> stageConfig a \<noteq> JObj [(''Requires'', JArr [])]
   \<and> (mutateConfig a content = Inr cfg \<longrightarrow> updatedConfig a cfg = Some (stageConfig a))"
  by (auto simp: stageConfig_def hasRequirements_def requires_def mutateConfig_written
           split: option.splits)

theorem empty_request_is_toggle_witness:
  "stageConfig toggle_request = JObj [(''Enabled'', JBool True)]
   \<and> stageConfig (toggle_request\<lparr>tenantIds := Some [], rolloutName := Some [], enabled := False\<rparr>)
       = JObj [(''Enabled'', JBool False)]
   \<and> mutateConfig toggle_request example_content
       = Inr (JObj [(''Environments'',
                     JObj [(''prod'', JObj [(''Enabled'', JBool True)]), (''test'', JObj [])]),
                    (''Owner'', JStr ''x'')])
   \<and> updatedConfig toggle_request
        (JObj [(''Environments'',
                JObj [(''prod'', JObj [(''Enabled'', JBool True)]), (''test'', JObj [])]),
               (''Owner'', JStr ''x'')])
       = Some (JObj [(''Enabled'', JBool True)])"
proof -
  have m: "mutateConfig toggle_request example_content
       = Inr (JObj [(''Environments'',
                     JObj [(''prod'', JObj [(''Enabled'', JBool True)]), (''test'', JObj [])]),
                    (''Owner'', JStr ''x'')])"
    by code_simp
  have h1: "(rolloutName toggle_request = None \<or> rolloutName toggle_request = Some [])
      \<and> (tenantIds toggle_request = None \<or> tenantIds toggle_request = Some [])
      \<and> enabled toggle_request"
    by (simp add: toggle_request_def)
  from h1
    empty_request_is_toggle [of toggle_request example_content
      "JObj [(''Environments'',
              JObj [(''prod'', JObj [(''Enabled'', JBool True)]), (''test'', JObj [])]),
             (''Owner'', JStr ''x'')]"]
  have c1: "stageConfig toggle_request = JObj [(''Enabled'', JBool True)]"
    by simp
  from m
    empty_request_is_toggle [of toggle_request example_content
      "JObj [(''Environments'',
              JObj [(''prod'', JObj [(''Enabled'', JBool True)]), (''test'', JObj [])]),
             (''Owner'', JStr ''x'')]"]
  have "updatedConfig toggle_request
        (JObj [(''Environments'',
                JObj [(''prod'', JObj [(''Enabled'', JBool True)]), (''test'', JObj [])]),
               (''Owner'', JStr ''x'')])
       = Some (stageConfig toggle_request)"
    by blast
  with c1 have c3: "updatedConfig toggle_request
        (JObj [(''Environments'',
                JObj [(''prod'', JObj [(''Enabled'', JBool True)]), (''test'', JObj [])]),
               (''Owner'', JStr ''x'')])
       = Some (JObj [(''Enabled'', JBool True)])"
    by simp
  from empty_request_is_toggle
      [of "toggle_request\<lparr>tenantIds := Some [], rolloutName := Some [], enabled := False\<rparr>" "[]" JNull]
  have c2: "stageConfig (toggle_request\<lparr>tenantIds := Some [], rolloutName := Some [], enabled := False\<rparr>)
       = JObj [(''Enabled'', JBool False)]"
    by simp
  from c1 c2 m c3 show ?thesis by blast
qed

text \<open>
  Claim C8, as stated, makes the requirement's name depend on a boolean flag of the request.
  The request has one boolean, \<^verbatim>\<open>enabled\<close>; with it false, the requirement compiled for a
  tenant list is still named \<^verbatim>\<open>PowerBI.MemberOf\<close>.
\<close>

theorem requirement_name_counterexample:
  "stageConfig (membership_request\<lparr>rolloutName := None, enabled := False\<rparr>)
     = JObj [(''Requires'',
         JArr [JObj [(''Name'', JStr ''PowerBI.MemberOf''),
                     (''Parameters'', JObj [(''Pivot'', JStr ''TenantObjectId''),
                                            (''Values'', JArr [JStr ''t1'', JStr ''t2''])])]])]"
  by code_simp

text \<open>
  Claim C8, amended. Every requirement the tool compiles is named \<^verbatim>\<open>PowerBI.MemberOf\<close>,
  whatever the request; the request has no membership flag and \<^verbatim>\<open>PowerBI.NotMemberOf\<close> is
  never written.
\<close>

theorem requirement_name:
  "x \<in> set (requires a) \<Longrightarrow> get_property x ''Name'' = Inr (Some (JStr ''PowerBI.MemberOf''))"
  by (auto simp: requires_def requirement_def split: option.splits if_splits)

theorem requirement_name_witness:
  "requirement ''TenantObjectId'' [JStr ''t1'', JStr ''t2'']
     \<in> set (requires (membership_request\<lparr>enabled := False\<rparr>))
   \<and> get_property (requirement ''TenantObjectId'' [JStr ''t1'', JStr ''t2'']) ''Name''
       = Inr (Some (JStr ''PowerBI.MemberOf''))"
proof -
  have h: "requirement ''TenantObjectId'' [JStr ''t1'', JStr ''t2'']
     \<in> set (requires (membership_request\<lparr>enabled := False\<rparr>))"
    by (simp add: requires_def membership_request_def toggle_request_def)
  from h requirement_name [OF h] show ?thesis by simp
qed

section \<open>What the calls do to the remote state\<close>

lemma received_fields [simp]:
  "refs (received e w) = refs w" "trees (received e w) = trees w"
  "faults (received e w) = faults w" "commit_id (received e w) = commit_id w"
  "log (received e w) = log w @ [e]"
  by (simp_all add: received_def)

lemma file_at_received [simp]: "file_at (received e w) b p = file_at w b p"
  by (simp add: file_at_def split: option.splits)

lemma connectionProvider_eq:
  "connectionProvider w = (case faults w ConnectionProvider of Some m \<Rightarrow> Inl (Error m) | None \<Rightarrow> Inr (), received CallConnectionProvider w)"
  by (simp add: connectionProvider_def split: option.splits)

lemma update_feature_switch_among_connected:
  assumes "faults w ConnectionProvider = None" and "faults w GetGitApi = None"
  shows "update_feature_switch_among other1 other2 a w =
     (case update_steps other1 other2 a (connected w) of
        (Inl e, w3) \<Rightarrow> (Inr (JSON_stringify (failure_payload a e)), w3)
      | (Inr payload, w3) \<Rightarrow> (Inr (JSON_stringify payload), w3))"
  using assms
  by (simp add: update_feature_switch_among_def connectionProvider_def getGitApi_def connected_def)

lemma resolveTip_cases:
  "resolveTip a w = (r, w1) \<Longrightarrow>
     w1 = received (CallGetBranch (repositoryId a) (branchName a)) w
     \<and> (\<forall>tip. r = Inr tip \<longrightarrow> map_of (refs w) (''refs/heads/'' @ branchName a) = Some tip \<and> tip \<noteq> [])"
  by (auto simp: resolveTip_def getBranch_def split: option.splits if_splits)

lemma fallback_state:
  "fallback a e w = (r, w') \<Longrightarrow>
     w' = (if faults w TokenProvider = None
           then received (CallFetch (repositoryId a) (featureFilePath (featureName a)) (branchName a))
                  (received CallTokenProvider w)
           else received CallTokenProvider w)"
  by (auto simp: fallback_def tokenProvider_def fetch_items_def split: option.splits if_splits response.splits)

lemma fallback_result:
  "fst (fallback a e w) =
     (if faults w TokenProvider \<noteq> None \<or> faults w Fetch \<noteq> None
         \<or> file_at w (branchName a) (featureFilePath (featureName a)) = None
      then Inl (could_not_find_file a e)
      else Inr (file_at w (branchName a) (featureFilePath (featureName a))))"
  by (auto simp: fallback_def tokenProvider_def fetch_items_def split: option.splits if_splits response.splits)

lemma fetchContent_primary_ok:
  assumes "faults w GetItemContent = None"
    and "file_at w (branchName a) (featureFilePath (featureName a)) = Some c"
  shows "fetchContent a w =
     (if c = [] then Inl (Error (''Could not find feature switch file content: '' @ featureFilePath (featureName a)))
      else Inr c,
      received (CallGetItemContent (repositoryId a) (featureFilePath (featureName a)) (branchName a)) w)"
  using assms by (simp add: fetchContent_def getItemContent_def)

lemma fetchContent_frame:
  "fetchContent a w = (r, w') \<Longrightarrow>
     refs w' = refs w \<and> trees w' = trees w \<and> faults w' = faults w \<and> commit_id w' = commit_id w
     \<and> (\<exists>es. log w' = log w @ es \<and> \<not> list_ex is_push es \<and> \<not> list_ex is_ref_update es)"
  by (auto simp: fetchContent_def getItemContent_def split: option.splits if_splits sum.splits prod.splits
           dest!: fallback_state)

lemma resolveTip_frame:
  "resolveTip a w = (r, w') \<Longrightarrow>
     refs w' = refs w \<and> trees w' = trees w \<and> faults w' = faults w \<and> commit_id w' = commit_id w
     \<and> (\<exists>es. log w' = log w @ es \<and> \<not> list_ex is_push es \<and> \<not> list_ex is_ref_update es)"
  by (auto dest!: resolveTip_cases)

lemma createPush_log:
  "snd (createPush push rid w) = w' \<Longrightarrow> log w' = log w @ [CallCreatePush push rid]"
  by (auto simp: createPush_def Let_def split: option.splits list.splits if_splits)

lemma createPush_rejected:
  "createPush push rid w = (Inl e, w') \<Longrightarrow> w' = received (CallCreatePush push rid) w"
  by (auto simp: createPush_def Let_def split: option.splits list.splits if_splits)

lemma createPush_stale:
  assumes "refUpdates push = [u]" and "map_of (refs w) (refName u) \<noteq> Some (oldObjectId u)"
  shows "\<exists>e. createPush push rid w = (Inl e, received (CallCreatePush push rid) w)"
  using assms
  by (auto simp: createPush_def Let_def split: option.splits list.splits if_splits)

section \<open>The update workflow under concurrent writers\<close>

lemma prepare_frame:
  assumes "prepare id a w = (r, w2)"
  shows "refs w2 = refs w \<and> trees w2 = trees w \<and> faults w2 = faults w
     \<and> (\<exists>es. log w2 = log w @ es \<and> \<not> list_ex is_push es \<and> \<not> list_ex is_ref_update es)"
proof -
  obtain r1 w1 where r1: "resolveTip a w = (r1, w1)" by (cases "resolveTip a w")
  note f1 = resolveTip_frame[OF r1]
  show ?thesis
  proof (cases r1)
    case (Inl e)
    with assms r1 have "w2 = w1" by (simp add: prepare_def)
    with f1 show ?thesis by simp
  next
    case (Inr tip)
    obtain r2 w2' where r2: "fetchContent a w1 = (r2, w2')" by (cases "fetchContent a w1")
    note f2 = fetchContent_frame[OF r2]
    from assms r1 Inr r2 have "w2 = w2'"
      by (auto simp: prepare_def split: sum.splits)
    with f1 f2 show ?thesis by auto
  qed
qed

lemma prepare_tip:
  assumes "fst (prepare other1 a w) = Inr (tip, cfg)"
  shows "map_of (refs w) (''refs/heads/'' @ branchName a) = Some tip"
proof -
  obtain r1 w1 where r1: "resolveTip a w = (r1, w1)" by (cases "resolveTip a w")
  from assms r1 have "r1 = Inr tip"
    by (auto simp: prepare_def split: sum.splits prod.splits)
  with resolveTip_cases[OF r1] show ?thesis by simp
qed

lemma update_steps_after_prepare:
  assumes "fst (prepare other1 a w) = Inr (tip, cfg)"
  shows "update_steps other1 other2 a w =
     (case createPush (updatePush a tip cfg) (repositoryId a) (other2 (snd (prepare other1 a w))) of
        (Inl e, w3) \<Rightarrow> (Inl e, w3)
      | (Inr result, w3) \<Rightarrow> (Inr (success_payload a result cfg), w3))"
  using assms by (cases "prepare other1 a w") (simp add: update_steps_def)

lemma update_steps_prepare_failed:
  assumes "fst (prepare other1 a w) = Inl e"
  shows "update_steps other1 other2 a w = (Inl e, snd (prepare other1 a w))"
  using assms by (cases "prepare other1 a w") (simp add: update_steps_def)

lemma createPush_stale_eq:
  assumes "refUpdates push = [u]" and "commits push = [c]"
    and "map_of (refs w) (refName u) \<noteq> Some (oldObjectId u)"
  shows "createPush push rid w = (Inl (push_error w), received (CallCreatePush push rid) w)"
  using assms
  by (auto simp: createPush_def push_error_def Let_def split: option.splits)

lemma failure_payload_push_error:
  "failure_payload a (push_error w) =
     JObj ([(''success'', JBool False),
            (''error'', JStr (case faults w CreatePush of
                                Some m \<Rightarrow> m
                              | None \<Rightarrow> ''The push was rejected: the ref has been updated by another client'')),
            (''repositoryId'', JStr (repositoryId a)), (''branchName'', JStr (branchName a)),
            (''featureName'', JStr (featureName a)), (''stage'', JStr (stage a))]
           @ (case tenantIds a of None \<Rightarrow> [] | Some ts \<Rightarrow> [(''tenantIds'', JArr (map JStr ts))]))"
  by (simp add: failure_payload_def push_error_def tenantIds_json_def split: option.splits)

text \<open>
  Claim C1. Whenever the update workflow reaches its push (steps 1 to 6 gave the tip \<open>tip\<close>
  and the document \<open>cfg\<close>), the tip is the commit id the branch had when the tool was
  invoked, the push names the branch ref with that id as expected old commit id, and it is
  the single call made after the other clients' last action. If the branch tip at that
  moment is another commit, because another client advanced it after step 1, the push is
  rejected: the tool returns the text of the payload with \<^verbatim>\<open>success: false\<close>, the message of
  the rejection as \<^verbatim>\<open>error\<close> and the parameters of the request, and the refs and commits of
  the repository are those the other client left. Nothing is retried.
\<close>

theorem stale_tip_is_conflict:
  assumes "faults w ConnectionProvider = None" and "faults w GetGitApi = None"
    and "fst (prepare other1 a (connected w)) = Inr (tip, cfg)"
  shows "map_of (refs w) (''refs/heads/'' @ branchName a) = Some tip
    \<and> refUpdates (updatePush a tip cfg)
        = [\<lparr>refName = ''refs/heads/'' @ branchName a, oldObjectId = tip, newObjectId = None\<rparr>]
    \<and> log (snd (update_feature_switch_among other1 other2 a w))
        = log (other2 (snd (prepare other1 a (connected w))))
          @ [CallCreatePush (updatePush a tip cfg) (repositoryId a)]
    \<and> (map_of (refs (other2 (snd (prepare other1 a (connected w))))) (''refs/heads/'' @ branchName a)
          \<noteq> Some tip \<longrightarrow>
        fst (update_feature_switch_among other1 other2 a w)
          = Inr (JSON_stringify
                  (JObj ([(''success'', JBool False),
                          (''error'', JStr (case faults (other2 (snd (prepare other1 a (connected w)))) CreatePush of
                                Some m \<Rightarrow> m
                              | None \<Rightarrow> ''The push was rejected: the ref has been updated by another client'')),
                          (''repositoryId'', JStr (repositoryId a)),
                          (''branchName'', JStr (branchName a)),
                          (''featureName'', JStr (featureName a)), (''stage'', JStr (stage a))]
                         @ (case tenantIds a of
                              None \<Rightarrow> []
                            | Some ts \<Rightarrow> [(''tenantIds'', JArr (map JStr ts))]))))
        \<and> refs (snd (update_feature_switch_among other1 other2 a w))
            = refs (other2 (snd (prepare other1 a (connected w))))
        \<and> trees (snd (update_feature_switch_among other1 other2 a w))
            = trees (other2 (snd (prepare other1 a (connected w)))))"
proof -
  let ?w2 = "other2 (snd (prepare other1 a (connected w)))"
  let ?push = "updatePush a tip cfg"
  have tip: "map_of (refs w) (''refs/heads/'' @ branchName a) = Some tip"
    using prepare_tip[OF assms(3)] by (simp add: connected_def)
  have ru: "refUpdates ?push
        = [\<lparr>refName = ''refs/heads/'' @ branchName a, oldObjectId = tip, newObjectId = None\<rparr>]"
    by (simp add: updatePush_def)
  have tool: "update_feature_switch_among other1 other2 a w =
     (case update_steps other1 other2 a (connected w) of
        (Inl e, w3) \<Rightarrow> (Inr (JSON_stringify (failure_payload a e)), w3)
      | (Inr payload, w3) \<Rightarrow> (Inr (JSON_stringify payload), w3))"
    by (rule update_feature_switch_among_connected[OF assms(1,2)])
  have steps: "update_steps other1 other2 a (connected w) =
     (case createPush ?push (repositoryId a) ?w2 of
        (Inl e, w3) \<Rightarrow> (Inl e, w3)
      | (Inr result, w3) \<Rightarrow> (Inr (success_payload a result cfg), w3))"
    by (rule update_steps_after_prepare[OF assms(3)])
  have "snd (update_feature_switch_among other1 other2 a w) = snd (createPush ?push (repositoryId a) ?w2)"
    unfolding tool steps by (simp split: prod.splits sum.splits)
  then have lg: "log (snd (update_feature_switch_among other1 other2 a w))
        = log ?w2 @ [CallCreatePush ?push (repositoryId a)]"
    using createPush_log[of ?push "repositoryId a" ?w2] by simp
  have stale: "map_of (refs ?w2) (''refs/heads/'' @ branchName a) \<noteq> Some tip \<longrightarrow>
        fst (update_feature_switch_among other1 other2 a w)
          = Inr (JSON_stringify (failure_payload a (push_error ?w2)))
        \<and> refs (snd (update_feature_switch_among other1 other2 a w)) = refs ?w2
        \<and> trees (snd (update_feature_switch_among other1 other2 a w)) = trees ?w2"
  proof
    assume adv: "map_of (refs ?w2) (''refs/heads/'' @ branchName a) \<noteq> Some tip"
    have "createPush ?push (repositoryId a) ?w2
        = (Inl (push_error ?w2), received (CallCreatePush ?push (repositoryId a)) ?w2)"
      by (rule createPush_stale_eq[where u = "\<lparr>refName = ''refs/heads/'' @ branchName a, oldObjectId = tip, newObjectId = None\<rparr>"])
         (use adv in \<open>simp_all add: updatePush_def\<close>)
    then show "fst (update_feature_switch_among other1 other2 a w)
          = Inr (JSON_stringify (failure_payload a (push_error ?w2)))
        \<and> refs (snd (update_feature_switch_among other1 other2 a w)) = refs ?w2
        \<and> trees (snd (update_feature_switch_among other1 other2 a w)) = trees ?w2"
      unfolding tool steps by simp
  qed
  from stale have stale': "map_of (refs ?w2) (''refs/heads/'' @ branchName a) \<noteq> Some tip \<longrightarrow>
        fst (update_feature_switch_among other1 other2 a w)
          = Inr (JSON_stringify
                  (JObj ([(''success'', JBool False),
                          (''error'', JStr (case faults ?w2 CreatePush of
                                Some m \<Rightarrow> m
                              | None \<Rightarrow> ''The push was rejected: the ref has been updated by another client'')),
                          (''repositoryId'', JStr (repositoryId a)),
                          (''branchName'', JStr (branchName a)),
                          (''featureName'', JStr (featureName a)), (''stage'', JStr (stage a))]
                         @ (case tenantIds a of
                              None \<Rightarrow> []
                            | Some ts \<Rightarrow> [(''tenantIds'', JArr (map JStr ts))]))))
        \<and> refs (snd (update_feature_switch_among other1 other2 a w)) = refs ?w2
        \<and> trees (snd (update_feature_switch_among other1 other2 a w)) = trees ?w2"
    by (simp only: failure_payload_push_error)
  from tip ru lg stale' show ?thesis by blast
qed

theorem stale_tip_is_conflict_witness:
  "faults example_remote ConnectionProvider = None \<and> faults example_remote GetGitApi = None
   \<and> fst (prepare id toggle_request (connected example_remote))
       = Inr (''c1'', JObj [(''Environments'',
                 JObj [(''prod'', JObj [(''Enabled'', JBool True)]), (''test'', JObj [])]),
                (''Owner'', JStr ''x'')])
   \<and> map_of (refs example_remote) ''refs/heads/master'' = Some ''c1''
   \<and> map_of (refs (other_writer (snd (prepare id toggle_request (connected example_remote)))))
        ''refs/heads/master'' = Some ''c2''
   \<and> fst (update_feature_switch_among id other_writer toggle_request example_remote)
       = Inr (JSON_stringify
           (JObj [(''success'', JBool False),
                  (''error'', JStr ''The push was rejected: the ref has been updated by another client''),
                  (''repositoryId'', JStr ''R''), (''branchName'', JStr ''master''),
                  (''featureName'', JStr ''F''), (''stage'', JStr ''prod'')]))
   \<and> refs (snd (update_feature_switch_among id other_writer toggle_request example_remote))
       = [(''refs/heads/master'', ''c2'')]
   \<and> trees (snd (update_feature_switch_among id other_writer toggle_request example_remote))
       = [(''c2'', [(''/Features/Configuration/Features/F.json'', ''{}'')]),
          (''c1'', [(''/Features/Configuration/Features/F.json'', example_content)])]
   \<and> filter is_push (log (snd (update_feature_switch_among id other_writer toggle_request example_remote)))
       = [CallCreatePush
            \<lparr>refUpdates = [\<lparr>refName = ''refs/heads/master'', oldObjectId = ''c1'', newObjectId = None\<rparr>],
             commits = commits (updatePush toggle_request ''c1''
                (JObj [(''Environments'',
                        JObj [(''prod'', JObj [(''Enabled'', JBool True)]), (''test'', JObj [])]),
                       (''Owner'', JStr ''x'')]))\<rparr>
            ''R'']"
proof -
  let ?cfg = "JObj [(''Environments'',
                 JObj [(''prod'', JObj [(''Enabled'', JBool True)]), (''test'', JObj [])]),
                (''Owner'', JStr ''x'')]"
  let ?w2 = "other_writer (snd (prepare id toggle_request (connected example_remote)))"
  have h1: "faults example_remote ConnectionProvider = None" by (simp add: example_remote_def)
  have h2: "faults example_remote GetGitApi = None" by (simp add: example_remote_def)
  have h3: "fst (prepare id toggle_request (connected example_remote)) = Inr (''c1'', ?cfg)"
    by code_simp
  have h4: "map_of (refs ?w2) ''refs/heads/master'' = Some ''c2''" by code_simp
  have h5: "refs ?w2 = [(''refs/heads/master'', ''c2'')]" by code_simp
  have h6: "faults ?w2 CreatePush = None" by code_simp
  have h7: "trees ?w2 = [(''c2'', [(''/Features/Configuration/Features/F.json'', ''{}'')]),
          (''c1'', [(''/Features/Configuration/Features/F.json'', example_content)])]"
    by code_simp
  have h8: "filter is_push (log ?w2) = []" by code_simp
  have b: "branchName toggle_request = ''master''" "repositoryId toggle_request = ''R''"
    "featureName toggle_request = ''F''" "stage toggle_request = ''prod''"
    "tenantIds toggle_request = None"
    by (simp_all add: toggle_request_def)
  note t = stale_tip_is_conflict [OF h1 h2 h3, of other_writer]
  from t b have c1: "map_of (refs example_remote) ''refs/heads/master'' = Some ''c1''" by simp
  from t have "log (snd (update_feature_switch_among id other_writer toggle_request example_remote))
        = log ?w2 @ [CallCreatePush (updatePush toggle_request ''c1'' ?cfg) (repositoryId toggle_request)]"
    by blast
  with h8 have c2: "filter is_push (log (snd (update_feature_switch_among id other_writer toggle_request example_remote)))
       = [CallCreatePush (updatePush toggle_request ''c1'' ?cfg) ''R'']"
    by (simp add: b)
  have u: "updatePush toggle_request ''c1'' ?cfg
     = \<lparr>refUpdates = [\<lparr>refName = ''refs/heads/master'', oldObjectId = ''c1'', newObjectId = None\<rparr>],
        commits = commits (updatePush toggle_request ''c1'' ?cfg)\<rparr>"
    using t b by (cases "updatePush toggle_request ''c1'' ?cfg") simp
  from t h4 h5 h6 h7 b
  have c3: "fst (update_feature_switch_among id other_writer toggle_request example_remote)
       = Inr (JSON_stringify
           (JObj [(''success'', JBool False),
                  (''error'', JStr ''The push was rejected: the ref has been updated by another client''),
                  (''repositoryId'', JStr ''R''), (''branchName'', JStr ''master''),
                  (''featureName'', JStr ''F''), (''stage'', JStr ''prod'')]))
     \<and> refs (snd (update_feature_switch_among id other_writer toggle_request example_remote))
       = [(''refs/heads/master'', ''c2'')]
     \<and> trees (snd (update_feature_switch_among id other_writer toggle_request example_remote))
       = [(''c2'', [(''/Features/Configuration/Features/F.json'', ''{}'')]),
          (''c1'', [(''/Features/Configuration/Features/F.json'', example_content)])]"
    by simp
  from c2 u have c2': "filter is_push (log (snd (update_feature_switch_among id other_writer toggle_request example_remote)))
       = [CallCreatePush
            \<lparr>refUpdates = [\<lparr>refName = ''refs/heads/master'', oldObjectId = ''c1'', newObjectId = None\<rparr>],
             commits = commits (updatePush toggle_request ''c1'' ?cfg)\<rparr>
            ''R'']"
    by simp
  from h1 h2 h3 h4 c1 c2' c3 show ?thesis by blast
qed

section \<open>The fallback of the content retrieval\<close>

lemma fetchContent_after_primary_failure:
  assumes "fst (getItemContent (repositoryId a) (featureFilePath (featureName a)) (branchName a) w) = Inl e
     \<or> (fst (getItemContent (repositoryId a) (featureFilePath (featureName a)) (branchName a) w) = Inr None
        \<and> e = Error ''No content stream returned'')"
  shows "log (snd (fetchContent a w))
       = log w @ [CallGetItemContent (repositoryId a) (featureFilePath (featureName a)) (branchName a),
                  CallTokenProvider]
         @ (if faults w TokenProvider = None
            then [CallFetch (repositoryId a) (featureFilePath (featureName a)) (branchName a)]
            else [])
    \<and> fst (fetchContent a w)
       = (if faults w TokenProvider \<noteq> None \<or> faults w Fetch \<noteq> None
             \<or> file_at w (branchName a) (featureFilePath (featureName a)) = None
          then Inl (could_not_find_file a e)
          else if file_at w (branchName a) (featureFilePath (featureName a)) = Some []
          then Inl (Error (''Could not find feature switch file content: ''
                           @ featureFilePath (featureName a)))
          else Inr (the (file_at w (branchName a) (featureFilePath (featureName a)))))
    \<and> refs (snd (fetchContent a w)) = refs w \<and> trees (snd (fetchContent a w)) = trees w"
proof -
  let ?w1 = "received (CallGetItemContent (repositoryId a) (featureFilePath (featureName a)) (branchName a)) w"
  have snd1: "snd (getItemContent (repositoryId a) (featureFilePath (featureName a)) (branchName a) w) = ?w1"
    by (simp add: getItemContent_def split: option.splits)
  obtain r w' where fb: "fallback a e ?w1 = (r, w')" by (cases "fallback a e ?w1")
  from assms snd1 fb have fc: "fetchContent a w =
       (case r of
          Inl e' \<Rightarrow> (Inl e', w')
        | Inr fileContent \<Rightarrow>
            (case fileContent of
               None \<Rightarrow> (Inl (Error (''Could not find feature switch file content: '' @ featureFilePath (featureName a))), w')
             | Some c \<Rightarrow> if c = [] then (Inl (Error (''Could not find feature switch file content: '' @ featureFilePath (featureName a))), w')
                         else (Inr c, w')))"
    by (cases "getItemContent (repositoryId a) (featureFilePath (featureName a)) (branchName a) w")
       (auto simp: fetchContent_def)
  have w': "snd (fetchContent a w) = w'"
    unfolding fc by (simp split: sum.splits option.splits)
  from fallback_state[OF fb] have st: "w' = (if faults w TokenProvider = None
           then received (CallFetch (repositoryId a) (featureFilePath (featureName a)) (branchName a))
                  (received CallTokenProvider ?w1)
           else received CallTokenProvider ?w1)" by simp
  from fallback_result[of a e ?w1] fb have res: "r =
     (if faults w TokenProvider \<noteq> None \<or> faults w Fetch \<noteq> None
         \<or> file_at w (branchName a) (featureFilePath (featureName a)) = None
      then Inl (could_not_find_file a e)
      else Inr (file_at w (branchName a) (featureFilePath (featureName a))))" by simp
  have c1: "log (snd (fetchContent a w))
       = log w @ [CallGetItemContent (repositoryId a) (featureFilePath (featureName a)) (branchName a),
                  CallTokenProvider]
         @ (if faults w TokenProvider = None
            then [CallFetch (repositoryId a) (featureFilePath (featureName a)) (branchName a)]
            else [])"
    unfolding w' st by simp
  have c2: "fst (fetchContent a w)
       = (if faults w TokenProvider \<noteq> None \<or> faults w Fetch \<noteq> None
             \<or> file_at w (branchName a) (featureFilePath (featureName a)) = None
          then Inl (could_not_find_file a e)
          else if file_at w (branchName a) (featureFilePath (featureName a)) = Some []
          then Inl (Error (''Could not find feature switch file content: ''
                           @ featureFilePath (featureName a)))
          else Inr (the (file_at w (branchName a) (featureFilePath (featureName a)))))"
    unfolding fc res by (auto split: option.splits)
  have c3: "refs (snd (fetchContent a w)) = refs w \<and> trees (snd (fetchContent a w)) = trees w"
    unfolding w' st by simp
  from c1 c2 c3 show ?thesis by blast
qed

text \<open>
  Claim C4, as stated, has every failure of the primary path followed by a REST items
  request. On the remote below the primary path fails and the token provider fails too: the
  tool asks for a token, sends no REST request and fails with the file-not-found error.
\<close>

theorem fallback_without_request:
  "fst (getItemContent ''R'' ''Features/Configuration/Features/F.json'' ''master''
          (failing TokenProvider ''no token'' (failing GetItemContent ''boom'' example_remote)))
     = Inl (Error ''boom'')
   \<and> log (snd (fetchContent toggle_request
                 (failing TokenProvider ''no token'' (failing GetItemContent ''boom'' example_remote))))
       = [CallGetItemContent ''R'' ''Features/Configuration/Features/F.json'' ''master'',
          CallTokenProvider]
   \<and> fst (fetchContent toggle_request
             (failing TokenProvider ''no token'' (failing GetItemContent ''boom'' example_remote)))
       = Inl (Error
           ''Could not find file: Features/Configuration/Features/F.json on branch: master. Error: boom'')"
  by code_simp

text \<open>
  Claim C4, amended. When the primary retrieval path fails (the call or its stream throws,
  or no stream is returned), the fallback is entered exactly once: the tool requests one
  access token and, if it obtains it, sends exactly one REST items request; if the token
  cannot be obtained, no request is sent. If the fallback fails (no token, a failed request
  or a response that is not ok), the step fails with the error
  \<^verbatim>\<open>Could not find file: <path> on branch: <branch>. Error: <message of the primary error>\<close>.
  Nothing is attempted a second time and the repository is not written.
\<close>

theorem fallback_once:
  assumes "fst (getItemContent (repositoryId a)
                  (''Features/Configuration/Features/'' @ featureName a @ ''.json'') (branchName a) w) = Inl e
     \<or> (fst (getItemContent (repositoryId a)
                  (''Features/Configuration/Features/'' @ featureName a @ ''.json'') (branchName a) w) = Inr None
        \<and> e = Error ''No content stream returned'')"
  shows "log (snd (fetchContent a w))
       = log w @ [CallGetItemContent (repositoryId a)
                    (''Features/Configuration/Features/'' @ featureName a @ ''.json'') (branchName a),
                  CallTokenProvider]
         @ (if faults w TokenProvider = None
            then [CallFetch (repositoryId a)
                    (''Features/Configuration/Features/'' @ featureName a @ ''.json'') (branchName a)]
            else [])
    \<and> fst (fetchContent a w)
       = (if faults w TokenProvider \<noteq> None \<or> faults w Fetch \<noteq> None
             \<or> file_at w (branchName a)
                  (''Features/Configuration/Features/'' @ featureName a @ ''.json'') = None
          then Inl (Error (''Could not find file: '' @ ''Features/Configuration/Features/''
                           @ featureName a @ ''.json'' @ '' on branch: '' @ branchName a
                           @ ''. Error: '' @ (if message e = [] then error_name e else message e)))
          else if file_at w (branchName a)
                    (''Features/Configuration/Features/'' @ featureName a @ ''.json'') = Some []
          then Inl (Error (''Could not find feature switch file content: ''
                           @ ''Features/Configuration/Features/'' @ featureName a @ ''.json''))
          else Inr (the (file_at w (branchName a)
                           (''Features/Configuration/Features/'' @ featureName a @ ''.json''))))
    \<and> refs (snd (fetchContent a w)) = refs w \<and> trees (snd (fetchContent a w)) = trees w"
proof -
  have p: "featureFilePath (featureName a) = ''Features/Configuration/Features/'' @ featureName a @ ''.json''"
    by (simp add: featureFilePath_def)
  have c: "could_not_find_file a e
     = Error (''Could not find file: '' @ ''Features/Configuration/Features/''
              @ featureName a @ ''.json'' @ '' on branch: '' @ branchName a
              @ ''. Error: '' @ (if message e = [] then error_name e else message e))"
    by (simp add: could_not_find_file_def message_or_error_def error_to_string_def featureFilePath_def)
  from assms have "fst (getItemContent (repositoryId a) (featureFilePath (featureName a)) (branchName a) w) = Inl e
     \<or> (fst (getItemContent (repositoryId a) (featureFilePath (featureName a)) (branchName a) w) = Inr None
        \<and> e = Error ''No content stream returned'')"
    unfolding p .
  from fetchContent_after_primary_failure[OF this] show ?thesis
    unfolding c p .
qed

theorem fallback_once_witness:
  "fst (getItemContent ''R'' (''Features/Configuration/Features/'' @ ''F'' @ ''.json'') ''master''
          (failing Fetch ''503'' (failing GetItemContent ''boom'' example_remote)))
     = Inl (Error ''boom'')
   \<and> log (snd (fetchContent toggle_request
                 (failing Fetch ''503'' (failing GetItemContent ''boom'' example_remote))))
       = [CallGetItemContent ''R'' ''Features/Configuration/Features/F.json'' ''master'',
          CallTokenProvider,
          CallFetch ''R'' ''Features/Configuration/Features/F.json'' ''master'']
   \<and> fst (fetchContent toggle_request
             (failing Fetch ''503'' (failing GetItemContent ''boom'' example_remote)))
       = Inl (Error
           ''Could not find file: Features/Configuration/Features/F.json on branch: master. Error: boom'')
   \<and> fst (getItemContent ''R'' (''Features/Configuration/Features/'' @ ''F'' @ ''.json'') ''master''
          (failing GetItemContent ''boom'' example_remote))
     = Inl (Error ''boom'')
   \<and> log (snd (fetchContent toggle_request (failing GetItemContent ''boom'' example_remote)))
       = [CallGetItemContent ''R'' ''Features/Configuration/Features/F.json'' ''master'',
          CallTokenProvider,
          CallFetch ''R'' ''Features/Configuration/Features/F.json'' ''master'']
   \<and> fst (fetchContent toggle_request (failing GetItemContent ''boom'' example_remote))
       = Inr example_content
   \<and> fst (getItemContent ''R'' (''Features/Configuration/Features/'' @ ''F'' @ ''.json'') ''master''
          (failing TokenProvider ''denied'' (failing GetItemContent ''boom'' example_remote)))
     = Inl (Error ''boom'')
   \<and> log (snd (fetchContent toggle_request
                 (failing TokenProvider ''denied'' (failing GetItemContent ''boom'' example_remote))))
       = [CallGetItemContent ''R'' ''Features/Configuration/Features/F.json'' ''master'',
          CallTokenProvider]
   \<and> fst (fetchContent toggle_request
             (failing TokenProvider ''denied'' (failing GetItemContent ''boom'' example_remote)))
       = Inl (Error
           ''Could not find file: Features/Configuration/Features/F.json on branch: master. Error: boom'')"
proof -
  let ?u = "failing TokenProvider ''denied'' (failing GetItemContent ''boom'' example_remote)"
  let ?w = "failing Fetch ''503'' (failing GetItemContent ''boom'' example_remote)"
  let ?v = "failing GetItemContent ''boom'' example_remote"
  have a: "repositoryId toggle_request = ''R''" "featureName toggle_request = ''F''"
    "branchName toggle_request = ''master''"
    by (simp_all add: toggle_request_def)
  have h: "fst (getItemContent ''R'' (''Features/Configuration/Features/'' @ ''F'' @ ''.json'') ''master'' ?w)
      = Inl (Error ''boom'')"
    by code_simp
  have g: "fst (getItemContent ''R'' (''Features/Configuration/Features/'' @ ''F'' @ ''.json'') ''master'' ?v)
      = Inl (Error ''boom'')"
    by code_simp
  have f: "faults ?w TokenProvider = None" "faults ?w Fetch = Some ''503''" "log ?w = []"
    "faults ?v TokenProvider = None" "faults ?v Fetch = None" "log ?v = []"
    "faults ?u TokenProvider = Some ''denied''" "log ?u = []"
    by (simp_all add: failing_def example_remote_def)
  have k: "fst (getItemContent ''R'' (''Features/Configuration/Features/'' @ ''F'' @ ''.json'') ''master'' ?u)
      = Inl (Error ''boom'')"
    by code_simp
  have fa: "file_at ?v ''master'' ''Features/Configuration/Features/F.json'' = Some example_content"
    by code_simp
  have ne: "example_content \<noteq> []" by code_simp
  from h have "fst (getItemContent (repositoryId toggle_request)
        (''Features/Configuration/Features/'' @ featureName toggle_request @ ''.json'')
        (branchName toggle_request) ?w) = Inl (Error ''boom'')
     \<or> (fst (getItemContent (repositoryId toggle_request)
        (''Features/Configuration/Features/'' @ featureName toggle_request @ ''.json'')
        (branchName toggle_request) ?w) = Inr None
        \<and> Error ''boom'' = Error ''No content stream returned'')"
    by (simp add: a)
  from fallback_once [OF this] f a
  have c1: "log (snd (fetchContent toggle_request ?w))
       = [CallGetItemContent ''R'' ''Features/Configuration/Features/F.json'' ''master'',
          CallTokenProvider,
          CallFetch ''R'' ''Features/Configuration/Features/F.json'' ''master'']
     \<and> fst (fetchContent toggle_request ?w)
       = Inl (Error
           ''Could not find file: Features/Configuration/Features/F.json on branch: master. Error: boom'')"
    by simp
  from g have "fst (getItemContent (repositoryId toggle_request)
        (''Features/Configuration/Features/'' @ featureName toggle_request @ ''.json'')
        (branchName toggle_request) ?v) = Inl (Error ''boom'')
     \<or> (fst (getItemContent (repositoryId toggle_request)
        (''Features/Configuration/Features/'' @ featureName toggle_request @ ''.json'')
        (branchName toggle_request) ?v) = Inr None
        \<and> Error ''boom'' = Error ''No content stream returned'')"
    by (simp add: a)
  from fallback_once [OF this] f a fa ne
  have c2: "log (snd (fetchContent toggle_request ?v))
       = [CallGetItemContent ''R'' ''Features/Configuration/Features/F.json'' ''master'',
          CallTokenProvider,
          CallFetch ''R'' ''Features/Configuration/Features/F.json'' ''master'']
     \<and> fst (fetchContent toggle_request ?v) = Inr example_content"
    by simp
  from k have "fst (getItemContent (repositoryId toggle_request)
        (''Features/Configuration/Features/'' @ featureName toggle_request @ ''.json'')
        (branchName toggle_request) ?u) = Inl (Error ''boom'')
     \<or> (fst (getItemContent (repositoryId toggle_request)
        (''Features/Configuration/Features/'' @ featureName toggle_request @ ''.json'')
        (branchName toggle_request) ?u) = Inr None
        \<and> Error ''boom'' = Error ''No content stream returned'')"
    by (simp add: a)
  from fallback_once [OF this] f a
  have c3: "log (snd (fetchContent toggle_request ?u))
       = [CallGetItemContent ''R'' ''Features/Configuration/Features/F.json'' ''master'',
          CallTokenProvider]
     \<and> fst (fetchContent toggle_request ?u)
       = Inl (Error
           ''Could not find file: Features/Configuration/Features/F.json on branch: master. Error: boom'')"
    by simp
  from h g k c1 c2 c3 show ?thesis by blast
qed

section \<open>Failures of the update workflow\<close>

lemma update_steps_push_failed:
  assumes "fst (prepare other1 a w) = Inr (tip, cfg)"
    and "fst (update_steps other1 other2 a w) = Inl e"
  shows "snd (update_steps other1 other2 a w)
     = received (CallCreatePush (updatePush a tip cfg) (repositoryId a)) (other2 (snd (prepare other1 a w)))"
proof -
  let ?w2 = "other2 (snd (prepare other1 a w))"
  obtain r w3 where cp: "createPush (updatePush a tip cfg) (repositoryId a) ?w2 = (r, w3)"
    by (cases "createPush (updatePush a tip cfg) (repositoryId a) ?w2")
  from assms(2) cp have "\<exists>e'. r = Inl e'"
    unfolding update_steps_after_prepare[OF assms(1)] by (cases r) auto
  then obtain e' where "r = Inl e'" ..
  with cp createPush_rejected have "w3 = received (CallCreatePush (updatePush a tip cfg) (repositoryId a)) ?w2"
    by blast
  with cp show ?thesis
    unfolding update_steps_after_prepare[OF assms(1)] by (simp split: sum.splits)
qed

lemma update_steps_log:
  "\<exists>es. log (snd (update_steps id id a w)) = log w @ es
     \<and> \<not> list_ex is_push (butlast es) \<and> \<not> list_ex is_ref_update es
     \<and> length (filter is_push es) \<le> 1"
proof -
  obtain r w2 where p: "prepare id a w = (r, w2)" by (cases "prepare id a w")
  from prepare_frame[OF p] obtain es where
    es: "log w2 = log w @ es" "\<not> list_ex is_push es" "\<not> list_ex is_ref_update es"
    by blast
  show ?thesis
  proof (cases r)
    case (Inl e)
    with p have "snd (update_steps id id a w) = w2"
      by (simp add: update_steps_prepare_failed)
    moreover from es(2) have "\<not> list_ex is_push (butlast es)"
      by (auto simp: list_ex_iff dest: in_set_butlastD)
    moreover from es(2) have "filter is_push es = []"
      by (auto simp: list_ex_iff filter_empty_conv)
    ultimately show ?thesis using es by auto
  next
    case (Inr tc)
    obtain tip cfg where tc: "tc = (tip, cfg)" by (cases tc)
    with p Inr have f: "fst (prepare id a w) = Inr (tip, cfg)" and s: "snd (prepare id a w) = w2"
      by simp_all
    have "snd (update_steps id id a w) = snd (createPush (updatePush a tip cfg) (repositoryId a) w2)"
      unfolding update_steps_after_prepare[OF f] s by (simp split: prod.splits sum.splits)
    with createPush_log[of "updatePush a tip cfg" "repositoryId a" w2]
    have "log (snd (update_steps id id a w)) = log w @ (es @ [CallCreatePush (updatePush a tip cfg) (repositoryId a)])"
      using es(1) by simp
    moreover from es(2) have "filter is_push es = []"
      by (auto simp: list_ex_iff filter_empty_conv)
    ultimately show ?thesis using es(2,3)
      by (intro exI[of _ "es @ [CallCreatePush (updatePush a tip cfg) (repositoryId a)]"]) simp
  qed
qed

lemma update_steps_failed_frame:
  assumes "fst (update_steps id id a w) = Inl e"
  shows "refs (snd (update_steps id id a w)) = refs w \<and> trees (snd (update_steps id id a w)) = trees w"
proof -
  obtain r w2 where p: "prepare id a w = (r, w2)" by (cases "prepare id a w")
  note fr = prepare_frame[OF p]
  show ?thesis
  proof (cases r)
    case (Inl e')
    with p have "snd (update_steps id id a w) = w2"
      by (simp add: update_steps_prepare_failed)
    with fr show ?thesis by simp
  next
    case (Inr tc)
    obtain tip cfg where tc: "tc = (tip, cfg)" by (cases tc)
    with p Inr have f: "fst (prepare id a w) = Inr (tip, cfg)" and s: "snd (prepare id a w) = w2"
      by simp_all
    from update_steps_push_failed[OF f assms] s fr show ?thesis by simp
  qed
qed

lemma update_feature_switch_connected:
  assumes "faults w ConnectionProvider = None" and "faults w GetGitApi = None"
  shows "snd (update_feature_switch a w) = snd (update_steps id id a (connected w))"
    and "fst (update_feature_switch a w) =
      (case fst (update_steps id id a (connected w)) of
         Inl e \<Rightarrow> Inr (JSON_stringify (failure_payload a e))
       | Inr payload \<Rightarrow> Inr (JSON_stringify payload))"
  unfolding update_feature_switch_def update_feature_switch_among_connected[OF assms]
  by (simp_all split: prod.splits sum.splits)

text \<open>
  Claim C10. Once the handler has its connection, \<^verbatim>\<open>update_feature_switch\<close> makes at most
  one push and makes it as its last call, and it never updates a ref otherwise. When any of
  steps 1 to 6 fails (the tip cannot be resolved, both retrieval paths fail, the content does
  not parse, the \<^verbatim>\<open>Environments\<close> section or the stage is missing), no push has been
  submitted. Whenever the \<^verbatim>\<open>try\<close> block fails, the refs and commits of the repository are
  unchanged and the tool returns, instead of throwing, the payload with \<^verbatim>\<open>success: false\<close>,
  the error message, the repository id, the branch, feature and stage names and the tenant
  ids that were given.
\<close>

theorem update_failure_reported:
  assumes "faults w ConnectionProvider = None" and "faults w GetGitApi = None"
  shows
   "(\<exists>es. log (snd (update_feature_switch a w)) = log w @ es
        \<and> \<not> list_ex is_push (butlast es) \<and> \<not> list_ex is_ref_update es
        \<and> length (filter is_push es) \<le> 1)
    \<and> (\<forall>e. fst (prepare id a (connected w)) = Inl e \<longrightarrow>
         filter is_push (log (snd (update_feature_switch a w))) = filter is_push (log w)
         \<and> fst (update_feature_switch a w) = Inr (JSON_stringify (failure_payload a e)))
    \<and> (\<forall>e. fst (update_steps id id a (connected w)) = Inl e \<longrightarrow>
         fst (update_feature_switch a w) = Inr (JSON_stringify (failure_payload a e))
         \<and> refs (snd (update_feature_switch a w)) = refs w
         \<and> trees (snd (update_feature_switch a w)) = trees w)
    \<and> (\<forall>e. failure_payload a e =
         JObj ([(''success'', JBool False), (''error'', JStr (message e)),
                (''repositoryId'', JStr (repositoryId a)), (''branchName'', JStr (branchName a)),
                (''featureName'', JStr (featureName a)), (''stage'', JStr (stage a))]
               @ (case tenantIds a of None \<Rightarrow> [] | Some ts \<Rightarrow> [(''tenantIds'', JArr (map JStr ts))])))"
proof -
  note c = update_feature_switch_connected[OF assms, of a]
  have p1: "\<exists>es. log (snd (update_feature_switch a w)) = log w @ es
        \<and> \<not> list_ex is_push (butlast es) \<and> \<not> list_ex is_ref_update es
        \<and> length (filter is_push es) \<le> 1"
  proof -
    from update_steps_log[of a "connected w"] obtain es where
      es: "log (snd (update_steps id id a (connected w))) = log (connected w) @ es"
        "\<not> list_ex is_push (butlast es)" "\<not> list_ex is_ref_update es"
        "length (filter is_push es) \<le> 1"
      by blast
    let ?es = "[CallConnectionProvider, CallGetGitApi] @ es"
    have "log (snd (update_feature_switch a w)) = log w @ ?es"
      using es(1) c(1) by (simp add: connected_def)
    moreover have "\<not> list_ex is_push (butlast ?es)"
      using es(2) by (cases es) (auto simp: butlast_append)
    moreover have "\<not> list_ex is_ref_update ?es" using es(3) by simp
    moreover have "length (filter is_push ?es) \<le> 1" using es(4) by simp
    ultimately show ?thesis by blast
  qed
  have p2: "\<forall>e. fst (prepare id a (connected w)) = Inl e \<longrightarrow>
         filter is_push (log (snd (update_feature_switch a w))) = filter is_push (log w)
         \<and> fst (update_feature_switch a w) = Inr (JSON_stringify (failure_payload a e))"
  proof (intro allI impI)
    fix e assume f: "fst (prepare id a (connected w)) = Inl e"
    obtain r w2 where p: "prepare id a (connected w) = (r, w2)" by (cases "prepare id a (connected w)")
    from prepare_frame[OF p] obtain es where
      es: "log w2 = log (connected w) @ es" "\<not> list_ex is_push es" by blast
    from es(2) have ne: "filter is_push es = []"
      by (auto simp: list_ex_iff filter_empty_conv)
    from p have "snd (prepare id a (connected w)) = w2" by simp
    with update_steps_prepare_failed[OF f, of id]
    have us: "update_steps id id a (connected w) = (Inl e, w2)" by simp
    with c es(1) ne show "filter is_push (log (snd (update_feature_switch a w))) = filter is_push (log w)
         \<and> fst (update_feature_switch a w) = Inr (JSON_stringify (failure_payload a e))"
      by (simp add: connected_def)
  qed
  have p3: "\<forall>e. fst (update_steps id id a (connected w)) = Inl e \<longrightarrow>
         fst (update_feature_switch a w) = Inr (JSON_stringify (failure_payload a e))
         \<and> refs (snd (update_feature_switch a w)) = refs w
         \<and> trees (snd (update_feature_switch a w)) = trees w"
    using c update_steps_failed_frame[of a "connected w"] by (simp add: connected_def)
  have p4: "\<forall>e. failure_payload a e =
         JObj ([(''success'', JBool False), (''error'', JStr (message e)),
                (''repositoryId'', JStr (repositoryId a)), (''branchName'', JStr (branchName a)),
                (''featureName'', JStr (featureName a)), (''stage'', JStr (stage a))]
               @ (case tenantIds a of None \<Rightarrow> [] | Some ts \<Rightarrow> [(''tenantIds'', JArr (map JStr ts))]))"
    by (simp add: failure_payload_def tenantIds_json_def split: option.splits)
  from p1 p2 p3 p4 show ?thesis by blast
qed


theorem update_failure_reported_witness:
  "faults example_remote ConnectionProvider = None \<and> faults example_remote GetGitApi = None
   \<and> fst (prepare id canary_request (connected example_remote))
       = Inl (Error (''Stage '' @ quoted ''canary''
                     @ '' not found in Environments section. Available stages: prod, test''))
   \<and> fst (update_steps id id canary_request (connected example_remote))
       = Inl (Error (''Stage '' @ quoted ''canary''
                     @ '' not found in Environments section. Available stages: prod, test''))
   \<and> filter is_push (log (snd (update_feature_switch canary_request example_remote))) = []
   \<and> fst (update_feature_switch canary_request example_remote)
       = Inr (JSON_stringify (failure_payload canary_request
           (Error (''Stage '' @ quoted ''canary''
                   @ '' not found in Environments section. Available stages: prod, test''))))
   \<and> refs (snd (update_feature_switch canary_request example_remote)) = refs example_remote
   \<and> trees (snd (update_feature_switch canary_request example_remote)) = trees example_remote"
proof -
  let ?e = "Error (''Stage '' @ quoted ''canary''
                   @ '' not found in Environments section. Available stages: prod, test'')"
  have h1: "faults example_remote ConnectionProvider = None" by (simp add: example_remote_def)
  have h2: "faults example_remote GetGitApi = None" by (simp add: example_remote_def)
  have h3: "fst (prepare id canary_request (connected example_remote)) = Inl ?e" by code_simp
  have h4: "fst (update_steps id id canary_request (connected example_remote)) = Inl ?e" by code_simp
  have l: "filter is_push (log example_remote) = []" by (simp add: example_remote_def)
  from update_failure_reported [OF h1 h2, of canary_request] h3 h4 l
  have "filter is_push (log (snd (update_feature_switch canary_request example_remote))) = []
     \<and> fst (update_feature_switch canary_request example_remote)
         = Inr (JSON_stringify (failure_payload canary_request ?e))
     \<and> refs (snd (update_feature_switch canary_request example_remote)) = refs example_remote
     \<and> trees (snd (update_feature_switch canary_request example_remote)) = trees example_remote"
    by metis
  with h1 h2 h3 h4 show ?thesis by blast
qed

text \<open>
  A stage that is no key of the \<^verbatim>\<open>Environments\<close> object is reported with the keys that are
  there, provided no key of the object is named \<^verbatim>\<open>hasOwnProperty\<close>.
\<close>

lemma unknown_stage_error:
  assumes "JSON_parse content = Some (JObj kvs)"
    and "map_of kvs ''Environments'' = Some (JObj envs)"
    and "stage a \<notin> fst ` set envs"
    and "''hasOwnProperty'' \<notin> fst ` set envs"
  shows "mutateConfig a content
     = Inl (Error (''Stage '' @ quoted (stage a)
                   @ '' not found in Environments section. Available stages: ''
                   @ join '', '' (map fst envs)))"
  using assms by (simp add: mutateConfig_def)

text \<open>
  Claim C6 fails on a document whose \<^verbatim>\<open>Environments\<close> object has a key named
  \<^verbatim>\<open>hasOwnProperty\<close>: the membership test \<^verbatim>\<open>Environments.hasOwnProperty(stage)\<close> then calls
  the value stored under that key. For the unknown stage \<^verbatim>\<open>canary\<close> the tool reports a
  type error and not the unknown-stage error that names the keys \<^verbatim>\<open>hasOwnProperty\<close> and
  \<^verbatim>\<open>test\<close>.
\<close>

theorem unknown_stage_shadowed:
  "JSON_parse shadowing_content
     = Some (JObj [(''Environments'', JObj [(''hasOwnProperty'', JObj []), (''test'', JObj [])])])
   \<and> fst (update_feature_switch canary_request shadowing_remote)
       = Inr (JSON_stringify (failure_payload canary_request
           (TypeError ''currentConfig.Environments.hasOwnProperty is not a function'')))"
  by code_simp

section \<open>The create workflow\<close>

lemma create_feature_switch_connected:
  assumes "faults w ConnectionProvider = None" and "faults w GetGitApi = None"
  shows "create_feature_switch rid fn d src bn w =
     (case create_steps rid fn d src bn (connected w) of
        (Inl e, w3) \<Rightarrow> (Inl (Error (''Failed to create feature switch: '' @ message e)), w3)
      | (Inr t, w3) \<Rightarrow> (Inr t, w3))"
  using assms
  by (simp add: create_feature_switch_def connectionProvider_def getGitApi_def connected_def)

lemma create_feature_switch_ok_connected:
  assumes "fst (create_feature_switch rid fn d src bn w) = Inr t"
  shows "faults w ConnectionProvider = None \<and> faults w GetGitApi = None"
  using assms
  by (auto simp: create_feature_switch_def connectionProvider_def getGitApi_def
           split: option.splits prod.splits sum.splits)

lemma map_of_append_new: "k \<notin> fst ` set xs \<Longrightarrow> map_of (xs @ [(k, v)]) k = Some v"
  by (induction xs) auto

lemma apply_ref_update_tip:
  "apply_ref_update u new rs = Some rs' \<Longrightarrow> map_of rs' (refName u) = Some new"
  by (auto simp: apply_ref_update_def update_conv' map_of_append_new map_of_eq_None_iff
           simp del: map_of_append split: option.splits if_splits)

lemma createBranch_failed:
  assumes "fst (createBranch rid src br w) = Inl e"
  shows "refs (snd (createBranch rid src br w)) = refs w
     \<and> trees (snd (createBranch rid src br w)) = trees w
     \<and> filter is_push (log (snd (createBranch rid src br w))) = filter is_push (log w)"
  using assms
  by (auto simp: createBranch_def getRefs_def updateRefs_def Let_def
           split: option.splits list.splits prod.splits sum.splits)

lemma createBranch_ok:
  assumes "fst (createBranch rid src br w) = Inr c"
  shows "map_of (refs (snd (createBranch rid src br w))) (''refs/heads/'' @ br) = Some c
     \<and> trees (snd (createBranch rid src br w)) = trees w
     \<and> faults (snd (createBranch rid src br w)) = faults w
     \<and> filter is_push (log (snd (createBranch rid src br w))) = filter is_push (log w)
     \<and> CallUpdateRefs [\<lparr>refName = ''refs/heads/'' @ br, oldObjectId = NULL_OBJECT_ID,
                         newObjectId = Some c\<rparr>] rid \<in> set (log (snd (createBranch rid src br w)))"
  using assms
  by (auto simp: createBranch_def getRefs_def updateRefs_def Let_def
           split: option.splits list.splits prod.splits sum.splits
           dest: apply_ref_update_tip)

lemma apply_change_Add:
  assumes "apply_change \<lparr>changeType = Add, item_path = CHR ''/'' # p, newContent = c\<rparr> files = Some files'"
  shows "map_of files' (CHR ''/'' # p) = Some c"
proof -
  have n: "normalize_path (CHR ''/'' # p) = CHR ''/'' # p"
    by (simp add: normalize_path_def starts_with_def)
  from assms have "CHR ''/'' # p \<notin> fst ` set files" and "files' = files @ [(CHR ''/'' # p, c)]"
    by (auto simp: apply_change_def n Let_def split: if_splits)
  then show ?thesis using map_of_append_new[of "CHR ''/'' # p" files c] by blast
qed

lemma createPush_ok:
  assumes "createPush push rid w = (Inr result, w')"
  obtains u c files' where
    "refUpdates push = [u]" "commits push = [c]"
    "map_of (refs w) (refName u) = Some (oldObjectId u)"
    "apply_changes (changes c) (case map_of (trees w) (oldObjectId u) of None \<Rightarrow> [] | Some fs \<Rightarrow> fs)
       = Some files'"
    "w' = (received (CallCreatePush push rid) w)
            \<lparr>refs := AList.update (refName u) (commit_id w (oldObjectId u) c) (refs w),
             trees := AList.update (commit_id w (oldObjectId u) c) files' (trees w)\<rparr>"
    "result = [JObj [(''commitId'', JStr (commit_id w (oldObjectId u) c))]]"
proof -
  from assms obtain u where u: "refUpdates push = [u]"
    by (auto simp: createPush_def Let_def split: option.splits list.splits if_splits)
  from assms obtain c where c: "commits push = [c]"
    by (auto simp: createPush_def Let_def split: option.splits list.splits if_splits)
  from assms u c that show thesis
    by (auto simp: createPush_def Let_def split: option.splits if_splits)
qed

lemma createFile_ok:
  assumes "fst (createFile rid fn d br c w) = Inr t"
  shows "file_at (snd (createFile rid fn d br c w)) br (featureFilePath fn)
       = Some (JSON_stringify (featureConfig fn d))
     \<and> map_of (refs (snd (createFile rid fn d br c w))) (''refs/heads/'' @ br) \<noteq> None
     \<and> set (log w) \<subseteq> set (log (snd (createFile rid fn d br c w)))"
proof -
  let ?push = "createFilePush br fn d c"
  obtain r w' where cp: "createPush ?push rid w = (r, w')" by (cases "createPush ?push rid w")
  with assms obtain result where r: "r = Inr result"
    by (cases r) (auto simp: createFile_def)
  with cp have s: "snd (createFile rid fn d br c w) = w'" by (simp add: createFile_def)
  from cp r obtain u cm files' where
    u: "refUpdates ?push = [u]" and cm: "commits ?push = [cm]"
    and ch: "apply_changes (changes cm) (case map_of (trees w) (oldObjectId u) of None \<Rightarrow> [] | Some fs \<Rightarrow> fs)
       = Some files'"
    and w': "w' = (received (CallCreatePush ?push rid) w)
            \<lparr>refs := AList.update (refName u) (commit_id w (oldObjectId u) cm) (refs w),
             trees := AList.update (commit_id w (oldObjectId u) cm) files' (trees w)\<rparr>"
    by (auto elim: createPush_ok)
  from u have un: "refName u = ''refs/heads/'' @ br" by (auto simp: createFilePush_def)
  from cm have chs: "changes cm = [\<lparr>changeType = Add, item_path = ''/'' @ featureFilePath fn,
                              newContent = JSON_stringify (featureConfig fn d)\<rparr>]"
    by (auto simp: createFilePush_def)
  from ch chs have "map_of files' (''/'' @ featureFilePath fn) = Some (JSON_stringify (featureConfig fn d))"
    by (auto split: option.splits dest: apply_change_Add)
  moreover have "normalize_path (featureFilePath fn) = ''/'' @ featureFilePath fn"
    by (simp add: normalize_path_def starts_with_def featureFilePath_def)
  ultimately have "file_at w' br (featureFilePath fn) = Some (JSON_stringify (featureConfig fn d))"
    by (simp add: file_at_def w' un update_conv')
  moreover have "map_of (refs w') (''refs/heads/'' @ br) \<noteq> None"
    by (simp add: w' un update_conv')
  moreover have "set (log w) \<subseteq> set (log w')" by (auto simp: w')
  ultimately show ?thesis unfolding s by blast
qed

lemma createFile_failed:
  assumes "fst (createFile rid fn d br c w) = Inl e"
  shows "snd (createFile rid fn d br c w)
      = received (CallCreatePush (createFilePush br fn d c) rid) w"
  using assms
  by (cases "createPush (createFilePush br fn d c) rid w")
     (auto simp: createFile_def dest: createPush_rejected split: sum.splits)

lemma create_steps_split:
  "create_steps rid fn d src bn w =
     (case fst (createBranch rid src (finalBranchName bn fn) w) of
        Inl e \<Rightarrow> (Inl e, snd (createBranch rid src (finalBranchName bn fn) w))
      | Inr c \<Rightarrow> createFile rid fn d (finalBranchName bn fn) c
                  (snd (createBranch rid src (finalBranchName bn fn) w)))"
  by (simp add: create_steps_def split: prod.splits sum.splits)

lemma create_feature_switch_ok:
  assumes "fst (create_feature_switch rid fn d src bn w) = Inr t"
  shows "(\<exists>c. CallUpdateRefs [\<lparr>refName = ''refs/heads/'' @ finalBranchName bn fn,
                                oldObjectId = NULL_OBJECT_ID, newObjectId = Some c\<rparr>] rid
              \<in> set (log (snd (create_feature_switch rid fn d src bn w))))
     \<and> map_of (refs (snd (create_feature_switch rid fn d src bn w)))
          (''refs/heads/'' @ finalBranchName bn fn) \<noteq> None
     \<and> file_at (snd (create_feature_switch rid fn d src bn w)) (finalBranchName bn fn)
          (featureFilePath fn) = Some (JSON_stringify (featureConfig fn d))"
proof -
  let ?br = "finalBranchName bn fn"
  let ?w = "connected w"
  from create_feature_switch_ok_connected[OF assms]
  have conn: "faults w ConnectionProvider = None" "faults w GetGitApi = None" by simp_all
  note tool = create_feature_switch_connected[OF conn, of rid fn d src bn]
  from assms have st: "fst (create_steps rid fn d src bn ?w) = Inr t"
    unfolding tool by (simp split: prod.splits sum.splits)
  then obtain c where cb: "fst (createBranch rid src ?br ?w) = Inr c"
    unfolding create_steps_split by (cases "fst (createBranch rid src ?br ?w)") auto
  let ?w2 = "snd (createBranch rid src ?br ?w)"
  from st cb have cf: "fst (createFile rid fn d ?br c ?w2) = Inr t"
    unfolding create_steps_split by simp
  have s: "snd (create_feature_switch rid fn d src bn w) = snd (createFile rid fn d ?br c ?w2)"
    unfolding tool create_steps_split using cb by (simp split: prod.splits sum.splits)
  from createBranch_ok[OF cb] createFile_ok[OF cf] show ?thesis
    unfolding s by blast
qed

text \<open>
  Claim C2. Every successful call of \<^verbatim>\<open>create_feature_switch\<close> with feature name
  \<^verbatim>\<open>MyFeature\<close>, description \<^verbatim>\<open>desc\<close>, source branch \<^verbatim>\<open>master\<close> and no branch name uses the
  branch name \<^verbatim>\<open>feature/myfeature\<close>: it has asked the remote to create that ref from the null
  object id, the ref exists afterwards, and the file
  \<^verbatim>\<open>Features/Configuration/Features/MyFeature.json\<close> at the tip of the branch is the JSON text
  of the document with \<^verbatim>\<open>Id\<close>, \<^verbatim>\<open>Description\<close> and the twelve stages, each an empty object.
\<close>

theorem create_my_feature:
  assumes "fst (create_feature_switch rid ''MyFeature'' ''desc'' ''master'' None w) = Inr t"
  shows "finalBranchName None ''MyFeature'' = ''feature/myfeature''
    \<and> (\<exists>c. CallUpdateRefs [\<lparr>refName = ''refs/heads/feature/myfeature'',
                               oldObjectId = NULL_OBJECT_ID, newObjectId = Some c\<rparr>] rid
             \<in> set (log (snd (create_feature_switch rid ''MyFeature'' ''desc'' ''master'' None w))))
    \<and> map_of (refs (snd (create_feature_switch rid ''MyFeature'' ''desc'' ''master'' None w)))
         ''refs/heads/feature/myfeature'' \<noteq> None
    \<and> file_at (snd (create_feature_switch rid ''MyFeature'' ''desc'' ''master'' None w))
         ''feature/myfeature'' ''Features/Configuration/Features/MyFeature.json''
        = Some (JSON_stringify (featureConfig ''MyFeature'' ''desc''))
    \<and> JSON_parse (JSON_stringify (featureConfig ''MyFeature'' ''desc''))
        = Some (JObj [(''Id'', JStr ''MyFeature''),
                      (''Description'', JStr ''desc''),
                      (''Environments'',
                       JObj [(''onebox'', JObj []), (''test'', JObj []), (''cst'', JObj []),
                             (''dxt'', JObj []), (''msit'', JObj []), (''prod'', JObj []),
                             (''mc'', JObj []), (''gcc'', JObj []), (''gcchigh'', JObj []),
                             (''dod'', JObj []), (''usnat'', JObj []), (''ussec'', JObj [])])])"
proof -
  have b: "finalBranchName None ''MyFeature'' = ''feature/myfeature''" by code_simp
  have f: "featureFilePath ''MyFeature'' = ''Features/Configuration/Features/MyFeature.json''"
    by (simp add: featureFilePath_def)
  have p: "JSON_parse (JSON_stringify (featureConfig ''MyFeature'' ''desc''))
        = Some (JObj [(''Id'', JStr ''MyFeature''),
                      (''Description'', JStr ''desc''),
                      (''Environments'',
                       JObj [(''onebox'', JObj []), (''test'', JObj []), (''cst'', JObj []),
                             (''dxt'', JObj []), (''msit'', JObj []), (''prod'', JObj []),
                             (''mc'', JObj []), (''gcc'', JObj []), (''gcchigh'', JObj []),
                             (''dod'', JObj []), (''usnat'', JObj []), (''ussec'', JObj [])])])"
    by code_simp
  from create_feature_switch_ok[OF assms] have
    "(\<exists>c. CallUpdateRefs [\<lparr>refName = ''refs/heads/'' @ ''feature/myfeature'',
                                oldObjectId = NULL_OBJECT_ID, newObjectId = Some c\<rparr>] rid
              \<in> set (log (snd (create_feature_switch rid ''MyFeature'' ''desc'' ''master'' None w))))
     \<and> map_of (refs (snd (create_feature_switch rid ''MyFeature'' ''desc'' ''master'' None w)))
          (''refs/heads/'' @ ''feature/myfeature'') \<noteq> None
     \<and> file_at (snd (create_feature_switch rid ''MyFeature'' ''desc'' ''master'' None w)) ''feature/myfeature''
          ''Features/Configuration/Features/MyFeature.json'' = Some (JSON_stringify (featureConfig ''MyFeature'' ''desc''))"
    unfolding b f .
  then have "(\<exists>c. CallUpdateRefs [\<lparr>refName = ''refs/heads/feature/myfeature'',
                               oldObjectId = NULL_OBJECT_ID, newObjectId = Some c\<rparr>] rid
             \<in> set (log (snd (create_feature_switch rid ''MyFeature'' ''desc'' ''master'' None w))))
    \<and> map_of (refs (snd (create_feature_switch rid ''MyFeature'' ''desc'' ''master'' None w)))
         ''refs/heads/feature/myfeature'' \<noteq> None
    \<and> file_at (snd (create_feature_switch rid ''MyFeature'' ''desc'' ''master'' None w))
         ''feature/myfeature'' ''Features/Configuration/Features/MyFeature.json''
        = Some (JSON_stringify (featureConfig ''MyFeature'' ''desc''))"
    by simp
  with b p show ?thesis by blast
qed

theorem create_my_feature_witness:
  "fst (create_feature_switch ''R'' ''MyFeature'' ''desc'' ''master'' None empty_remote)
     = Inr (''Feature switch '' @ quoted ''MyFeature'' @ '' created successfully!''
            @ newline @ newline @ ''Branch: feature/myfeature''
            @ newline @ ''File: Features/Configuration/Features/MyFeature.json''
            @ newline @ newline @ ''Configuration:'' @ newline
            @ JSON_stringify (featureConfig ''MyFeature'' ''desc'')
            @ newline @ newline @ ''Commit: '' @ JSON_stringify (JObj [(''commitId'', JStr ''c1+'')]))
   \<and> refs (snd (create_feature_switch ''R'' ''MyFeature'' ''desc'' ''master'' None empty_remote))
       = [(''refs/heads/master'', ''c1''), (''refs/heads/feature/myfeature'', ''c1+'')]
   \<and> file_at (snd (create_feature_switch ''R'' ''MyFeature'' ''desc'' ''master'' None empty_remote))
         ''feature/myfeature'' ''Features/Configuration/Features/MyFeature.json''
        = Some (JSON_stringify (featureConfig ''MyFeature'' ''desc''))"
proof -
  have h: "fst (create_feature_switch ''R'' ''MyFeature'' ''desc'' ''master'' None empty_remote)
     = Inr (''Feature switch '' @ quoted ''MyFeature'' @ '' created successfully!''
            @ newline @ newline @ ''Branch: feature/myfeature''
            @ newline @ ''File: Features/Configuration/Features/MyFeature.json''
            @ newline @ newline @ ''Configuration:'' @ newline
            @ JSON_stringify (featureConfig ''MyFeature'' ''desc'')
            @ newline @ newline @ ''Commit: '' @ JSON_stringify (JObj [(''commitId'', JStr ''c1+'')]))"
    by code_simp
  have r: "refs (snd (create_feature_switch ''R'' ''MyFeature'' ''desc'' ''master'' None empty_remote))
       = [(''refs/heads/master'', ''c1''), (''refs/heads/feature/myfeature'', ''c1+'')]"
    by code_simp
  from create_my_feature [OF h] h r show ?thesis by blast
qed

text \<open>
  Claim C5, as stated, has the workflow report which step failed. It does not: a failure of
  the branch creation and a failure of the file commit with the same underlying message
  give the same error, although only the second leaves the new branch behind.
\<close>

theorem create_failure_counterexample:
  "fst (create_feature_switch ''R'' ''MyFeature'' ''desc'' ''master'' None
          (failing UpdateRefs ''timeout'' empty_remote))
     = Inl (Error ''Failed to create feature switch: timeout'')
   \<and> fst (create_feature_switch ''R'' ''MyFeature'' ''desc'' ''master'' None
          (failing CreatePush ''timeout'' empty_remote))
     = Inl (Error ''Failed to create feature switch: timeout'')
   \<and> refs (snd (create_feature_switch ''R'' ''MyFeature'' ''desc'' ''master'' None
          (failing UpdateRefs ''timeout'' empty_remote)))
     = [(''refs/heads/master'', ''c1'')]
   \<and> refs (snd (create_feature_switch ''R'' ''MyFeature'' ''desc'' ''master'' None
          (failing CreatePush ''timeout'' empty_remote)))
     = [(''refs/heads/master'', ''c1''), (''refs/heads/feature/myfeature'', ''c1'')]"
  by code_simp

text \<open>
  Claim C5, amended. If the branch creation fails, the workflow throws
  \<^verbatim>\<open>Failed to create feature switch:\<close> followed by the message of the error, without having
  submitted a push: refs and commits are unchanged. If the branch creation succeeds and the
  file commit fails, it throws an error of the same form with the message of the push
  error; the new branch exists, pointing at the source commit, and no commit was added.
  The error names no step.
\<close>

theorem create_failure_steps:
  assumes "faults w ConnectionProvider = None" and "faults w GetGitApi = None"
  shows
   "(\<forall>e. fst (createBranch rid src (finalBranchName bn fn) (connected w)) = Inl e \<longrightarrow>
        fst (create_feature_switch rid fn d src bn w)
          = Inl (Error (''Failed to create feature switch: '' @ message e))
        \<and> filter is_push (log (snd (create_feature_switch rid fn d src bn w))) = filter is_push (log w)
        \<and> refs (snd (create_feature_switch rid fn d src bn w)) = refs w
        \<and> trees (snd (create_feature_switch rid fn d src bn w)) = trees w)
    \<and> (\<forall>c e. fst (createBranch rid src (finalBranchName bn fn) (connected w)) = Inr c
          \<and> fst (createFile rid fn d (finalBranchName bn fn) c
                   (snd (createBranch rid src (finalBranchName bn fn) (connected w)))) = Inl e \<longrightarrow>
        fst (create_feature_switch rid fn d src bn w)
          = Inl (Error (''Failed to create feature switch: '' @ message e))
        \<and> map_of (refs (snd (create_feature_switch rid fn d src bn w)))
             (''refs/heads/'' @ finalBranchName bn fn) = Some c
        \<and> trees (snd (create_feature_switch rid fn d src bn w)) = trees w)"
proof -
  let ?br = "finalBranchName bn fn"
  let ?w = "connected w"
  let ?w2 = "snd (createBranch rid src ?br ?w)"
  note tool = create_feature_switch_connected[OF assms, of rid fn d src bn]
  have p1: "\<forall>e. fst (createBranch rid src ?br ?w) = Inl e \<longrightarrow>
        fst (create_feature_switch rid fn d src bn w)
          = Inl (Error (''Failed to create feature switch: '' @ message e))
        \<and> filter is_push (log (snd (create_feature_switch rid fn d src bn w))) = filter is_push (log w)
        \<and> refs (snd (create_feature_switch rid fn d src bn w)) = refs w
        \<and> trees (snd (create_feature_switch rid fn d src bn w)) = trees w"
  proof (intro allI impI)
    fix e assume f: "fst (createBranch rid src ?br ?w) = Inl e"
    then have "create_feature_switch rid fn d src bn w
       = (Inl (Error (''Failed to create feature switch: '' @ message e)), ?w2)"
      unfolding tool create_steps_split by simp
    with createBranch_failed[OF f]
    show "fst (create_feature_switch rid fn d src bn w)
          = Inl (Error (''Failed to create feature switch: '' @ message e))
        \<and> filter is_push (log (snd (create_feature_switch rid fn d src bn w))) = filter is_push (log w)
        \<and> refs (snd (create_feature_switch rid fn d src bn w)) = refs w
        \<and> trees (snd (create_feature_switch rid fn d src bn w)) = trees w"
      by (simp add: connected_def)
  qed
  have p2: "\<forall>c e. fst (createBranch rid src ?br ?w) = Inr c
          \<and> fst (createFile rid fn d ?br c ?w2) = Inl e \<longrightarrow>
        fst (create_feature_switch rid fn d src bn w)
          = Inl (Error (''Failed to create feature switch: '' @ message e))
        \<and> map_of (refs (snd (create_feature_switch rid fn d src bn w))) (''refs/heads/'' @ ?br) = Some c
        \<and> trees (snd (create_feature_switch rid fn d src bn w)) = trees w"
  proof (intro allI impI, elim conjE)
    fix c e assume cb: "fst (createBranch rid src ?br ?w) = Inr c"
      and cf: "fst (createFile rid fn d ?br c ?w2) = Inl e"
    from cb cf have "create_feature_switch rid fn d src bn w
       = (Inl (Error (''Failed to create feature switch: '' @ message e)),
          snd (createFile rid fn d ?br c ?w2))"
      unfolding tool create_steps_split by (cases "createFile rid fn d ?br c ?w2") simp
    with createBranch_ok[OF cb] createFile_failed[OF cf]
    show "fst (create_feature_switch rid fn d src bn w)
          = Inl (Error (''Failed to create feature switch: '' @ message e))
        \<and> map_of (refs (snd (create_feature_switch rid fn d src bn w))) (''refs/heads/'' @ ?br) = Some c
        \<and> trees (snd (create_feature_switch rid fn d src bn w)) = trees w"
      by (simp add: connected_def)
  qed
  from p1 p2 show ?thesis by blast
qed

theorem create_failure_steps_witness:
  "faults (failing UpdateRefs ''timeout'' empty_remote) ConnectionProvider = None
   \<and> faults (failing UpdateRefs ''timeout'' empty_remote) GetGitApi = None
   \<and> fst (createBranch ''R'' ''master'' (finalBranchName None ''MyFeature'')
            (connected (failing UpdateRefs ''timeout'' empty_remote))) = Inl (Error ''timeout'')
   \<and> fst (create_feature_switch ''R'' ''MyFeature'' ''desc'' ''master'' None
            (failing UpdateRefs ''timeout'' empty_remote))
       = Inl (Error (''Failed to create feature switch: '' @ ''timeout''))
   \<and> refs (snd (create_feature_switch ''R'' ''MyFeature'' ''desc'' ''master'' None
            (failing UpdateRefs ''timeout'' empty_remote)))
       = refs (failing UpdateRefs ''timeout'' empty_remote)
   \<and> fst (createBranch ''R'' ''master'' (finalBranchName None ''MyFeature'')
            (connected (failing CreatePush ''timeout'' empty_remote))) = Inr ''c1''
   \<and> fst (createFile ''R'' ''MyFeature'' ''desc'' (finalBranchName None ''MyFeature'') ''c1''
            (snd (createBranch ''R'' ''master'' (finalBranchName None ''MyFeature'')
                   (connected (failing CreatePush ''timeout'' empty_remote)))))
       = Inl (Error ''timeout'')
   \<and> fst (create_feature_switch ''R'' ''MyFeature'' ''desc'' ''master'' None
            (failing CreatePush ''timeout'' empty_remote))
       = Inl (Error (''Failed to create feature switch: '' @ ''timeout''))
   \<and> map_of (refs (snd (create_feature_switch ''R'' ''MyFeature'' ''desc'' ''master'' None
            (failing CreatePush ''timeout'' empty_remote))))
         (''refs/heads/'' @ finalBranchName None ''MyFeature'') = Some ''c1''"
proof -
  let ?wa = "failing UpdateRefs ''timeout'' empty_remote"
  let ?wc = "failing CreatePush ''timeout'' empty_remote"
  have a1: "faults ?wa ConnectionProvider = None" and a2: "faults ?wa GetGitApi = None"
    and c1: "faults ?wc ConnectionProvider = None" and c2: "faults ?wc GetGitApi = None"
    by (simp_all add: failing_def empty_remote_def)
  have ha: "fst (createBranch ''R'' ''master'' (finalBranchName None ''MyFeature'') (connected ?wa))
      = Inl (Error ''timeout'')"
    by code_simp
  have hc: "fst (createBranch ''R'' ''master'' (finalBranchName None ''MyFeature'') (connected ?wc))
      = Inr ''c1''"
    by code_simp
  have hf: "fst (createFile ''R'' ''MyFeature'' ''desc'' (finalBranchName None ''MyFeature'') ''c1''
            (snd (createBranch ''R'' ''master'' (finalBranchName None ''MyFeature'') (connected ?wc))))
       = Inl (Error ''timeout'')"
    by code_simp
  from create_failure_steps [OF a1 a2, of "''R''" "''master''" None "''MyFeature''" "''desc''"] ha
  have ra: "fst (create_feature_switch ''R'' ''MyFeature'' ''desc'' ''master'' None ?wa)
       = Inl (Error (''Failed to create feature switch: '' @ ''timeout''))
     \<and> refs (snd (create_feature_switch ''R'' ''MyFeature'' ''desc'' ''master'' None ?wa)) = refs ?wa"
    by (metis message.simps(1))
  from create_failure_steps [OF c1 c2, of "''R''" "''master''" None "''MyFeature''" "''desc''"] hc hf
  have rc: "fst (create_feature_switch ''R'' ''MyFeature'' ''desc'' ''master'' None ?wc)
       = Inl (Error (''Failed to create feature switch: '' @ ''timeout''))
     \<and> map_of (refs (snd (create_feature_switch ''R'' ''MyFeature'' ''desc'' ''master'' None ?wc)))
         (''refs/heads/'' @ finalBranchName None ''MyFeature'') = Some ''c1''"
    by (metis message.simps(1))
  from a1 a2 ha ra hc hf rc show ?thesis by blast
qed

section \<open>The round trip of a document\<close>

subsection \<open>Decimal digits\<close>

lemma char_of_48: "char_of (48::nat) = CHR ''0''"
proof -
  have "(of_char CHR ''0'' :: nat) = 48" by simp
  then have "char_of (48::nat) = char_of (of_char CHR ''0'' :: nat)" by simp
  then show ?thesis by (simp only: char_of_char)
qed

lemma is_digit_digit_char: "d < 10 \<Longrightarrow> is_digit (digit_char d)"
  by (simp add: is_digit_def digit_char_def)

lemma digit_val_digit_char: "d < 10 \<Longrightarrow> digit_val (digit_char d) = d"
  by (simp add: digit_val_def digit_char_def)

lemma digit_char_digit_val: "is_digit c \<Longrightarrow> digit_char (digit_val c) = c"
  by (simp add: is_digit_def digit_char_def digit_val_def)

lemma digit_val_less: "is_digit c \<Longrightarrow> digit_val c < 10"
  by (auto simp: is_digit_def digit_val_def)

lemma digit_char_zero: "d < 10 \<Longrightarrow> (digit_char d = CHR ''0'') = (d = 0)"
proof
  assume "d < 10" "digit_char d = CHR ''0''"
  then have "digit_val (digit_char d) = digit_val CHR ''0''" by simp
  with \<open>d < 10\<close> show "d = 0" by (simp add: digit_val_digit_char) (simp add: digit_val_def)
next
  assume "d = 0" then show "digit_char d = CHR ''0''" by (simp add: digit_char_def char_of_48)
qed

lemma nat_of_digits_snoc: "nat_of_digits (ds @ [c]) = 10 * nat_of_digits ds + digit_val c"
  by (simp add: nat_of_digits_def)

lemma dec_digits_props:
  "list_all is_digit (dec_digits n) \<and> dec_digits n \<noteq> [] \<and> nat_of_digits (dec_digits n) = n
   \<and> (hd (dec_digits n) = CHR ''0'' \<longrightarrow> n = 0)"
proof (induction n rule: dec_digits.induct)
  case (1 n)
  show ?case
  proof (cases "n < 10")
    case True
    then have "dec_digits n = [digit_char n]" by (simp add: dec_digits.simps)
    with True show ?thesis
      by (simp add: is_digit_digit_char nat_of_digits_def digit_val_digit_char digit_char_zero)
  next
    case False
    then have e: "dec_digits n = dec_digits (n div 10) @ [digit_char (n mod 10)]"
      by (subst dec_digits.simps) simp
    from False 1 have ih: "list_all is_digit (dec_digits (n div 10))" "dec_digits (n div 10) \<noteq> []"
      "nat_of_digits (dec_digits (n div 10)) = n div 10"
      "hd (dec_digits (n div 10)) = CHR ''0'' \<longrightarrow> n div 10 = 0"
      by simp_all
    from False have "n div 10 \<noteq> 0" by simp
    with ih e show ?thesis
      by (simp add: is_digit_digit_char nat_of_digits_snoc digit_val_digit_char)
  qed
qed

lemma dec_digits_zero: "dec_digits 0 = ''0''"
  by (simp add: dec_digits.simps digit_char_def char_of_48)

lemma dec_digits_length_one: "hd (dec_digits n) = CHR ''0'' \<Longrightarrow> length (dec_digits n) = 1"
  using dec_digits_props[of n] by (auto simp: dec_digits_zero)

text \<open>The canonical decimal form of a number is unique.\<close>

lemma dec_digits_nat_of_digits:
  assumes "ds \<noteq> []" and "list_all is_digit ds" and "ds = ''0'' \<or> hd ds \<noteq> CHR ''0''"
  shows "dec_digits (nat_of_digits ds) = ds"
  using assms
proof (induction ds rule: rev_induct)
  case Nil
  then show ?case by simp
next
  case (snoc c ds)
  from snoc.prems have c: "is_digit c" by simp
  show ?case
  proof (cases "ds = []")
    case True
    have "digit_val c < 10" by (rule digit_val_less[OF c])
    then have "dec_digits (digit_val c) = [digit_char (digit_val c)]"
      by (subst dec_digits.simps) simp
    with True c show ?thesis
      by (simp add: nat_of_digits_def digit_char_digit_val)
  next
    case False
    with snoc.prems have hd: "hd ds \<noteq> CHR ''0''" by (cases ds) auto
    from snoc.prems have "list_all is_digit ds" by simp
    with snoc.IH False hd have ih: "dec_digits (nat_of_digits ds) = ds" by simp
    have pos: "nat_of_digits ds \<noteq> 0"
    proof
      assume "nat_of_digits ds = 0"
      with ih have "ds = ''0''" by (simp add: dec_digits_zero)
      with hd show False by simp
    qed
    let ?n = "10 * nat_of_digits ds + digit_val c"
    from pos have "\<not> ?n < 10" by simp
    then have "dec_digits ?n = dec_digits (?n div 10) @ [digit_char (?n mod 10)]"
      by (subst dec_digits.simps) simp
    moreover from c have "?n div 10 = nat_of_digits ds" "?n mod 10 = digit_val c"
      using digit_val_less[OF c] by simp_all
    ultimately have "dec_digits ?n = dec_digits (nat_of_digits ds) @ [digit_char (digit_val c)]"
      by (simp only:)
    then have "dec_digits ?n = ds @ [c]"
      by (simp only: ih digit_char_digit_val[OF c])
    then show ?thesis by (simp only: nat_of_digits_snoc)
  qed
qed

subsection \<open>Array indices\<close>

lemma array_index_canonical:
  assumes "array_index k"
  shows "dec_digits (nat_of_digits k) = k"
proof -
  from assms have *: "k \<noteq> [] \<and> list_all is_digit k \<and> (k = ''0'' \<or> hd k \<noteq> CHR ''0'')
     \<and> nat_of_digits k < 4294967295"
    unfolding array_index_def .
  from * have a: "k \<noteq> []" by (elim conjE)
  from * have b: "list_all is_digit k" by (elim conjE)
  from * have c: "k = ''0'' \<or> hd k \<noteq> CHR ''0''" by (elim conjE)
  from a b c show ?thesis by (rule dec_digits_nat_of_digits)
qed

lemma array_index_inj:
  assumes "array_index k" and "array_index k'" and "nat_of_digits k = nat_of_digits k'"
  shows "k = k'"
proof -
  have "k = dec_digits (nat_of_digits k)"
    by (rule array_index_canonical[OF assms(1), symmetric])
  also have "\<dots> = dec_digits (nat_of_digits k')" by (simp only: assms(3))
  also have "\<dots> = k'" by (rule array_index_canonical[OF assms(2)])
  finally show ?thesis .
qed

subsection \<open>The lexer on the text of a value\<close>

lemma takeWhile_digits:
  assumes "list_all is_digit ds" and "s = [] \<or> \<not> is_digit (hd s)"
  shows "takeWhile is_digit (ds @ s) = ds" and "dropWhile is_digit (ds @ s) = s"
proof -
  have a: "takeWhile is_digit s = []"
    by (cases s) (use assms(2) in simp_all)
  have b: "dropWhile is_digit s = s"
    by (cases s) (use assms(2) in simp_all)
  from assms(1) show "takeWhile is_digit (ds @ s) = ds" and "dropWhile is_digit (ds @ s) = s"
    by (induction ds) (simp_all add: a b)
qed

lemma not_digit_minus: "\<not> is_digit CHR ''-''"
  by (simp add: is_digit_def)

lemma hd_dec_digits: "is_digit (hd (dec_digits n @ s))"
  using dec_digits_props[of n] by (cases "dec_digits n") simp_all

lemma lex_digits_dec:
  assumes "number_end s"
  shows "lex_digits neg (dec_digits n @ s) = Some (if neg then - int n else int n, s)"
proof -
  note p = dec_digits_props[of n]
  from assms have s: "s = [] \<or> \<not> is_digit (hd s)" by (auto simp: number_end_def)
  from p have d: "list_all is_digit (dec_digits n)" by blast
  have tw: "takeWhile is_digit (dec_digits n @ s) = dec_digits n"
    by (rule takeWhile_digits(1)[OF d s])
  have dw: "dropWhile is_digit (dec_digits n @ s) = s"
    by (rule takeWhile_digits(2)[OF d s])
  from assms have e: "\<not> (s \<noteq> [] \<and> hd s \<in> {CHR ''.'', CHR ''e'', CHR ''E''})"
    by (auto simp: number_end_def)
  have lz: "\<not> (hd (dec_digits n) = CHR ''0'' \<and> length (dec_digits n) > 1)"
    using dec_digits_length_one[of n] by auto
  from p have ne: "dec_digits n \<noteq> []" and v: "nat_of_digits (dec_digits n) = n"
    by blast+
  show ?thesis
    unfolding lex_digits_def Let_def tw dw using e lz ne v by simp
qed

lemma lex_number_to_string:
  assumes "number_end s"
  shows "lex_number (number_to_string i @ s) = Some (i, s)"
proof (cases "i < 0")
  case True
  then have "lex_number (number_to_string i @ s) = lex_digits True (dec_digits (nat (- i)) @ s)"
    by (simp add: number_to_string_def lex_number_def)
  with True show ?thesis by (simp add: lex_digits_dec[OF assms])
next
  case False
  have "\<not> (dec_digits (nat i) @ s \<noteq> [] \<and> hd (dec_digits (nat i) @ s) = CHR ''-'')"
    using hd_dec_digits[of "nat i" s] not_digit_minus by metis
  with False have "lex_number (number_to_string i @ s) = lex_digits False (dec_digits (nat i) @ s)"
    by (simp only: number_to_string_def lex_number_def if_False)
  with False show ?thesis by (simp add: lex_digits_dec[OF assms])
qed

lemma first_char_number:
  "number_to_string i \<noteq> [] \<and> (hd (number_to_string i) = CHR ''-'' \<or> is_digit (hd (number_to_string i)))"
  using hd_dec_digits[of "nat i" "[]"] dec_digits_props[of "nat i"]
  by (simp add: number_to_string_def)

lemma hex_val_hex_char: "d < 16 \<Longrightarrow> hex_val (hex_char d) = Some d"
  by (auto simp: hex_val_def hex_char_def Let_def)

lemma hex4_hex_char:
  assumes "n < 32"
  shows "hex4 CHR ''0'' CHR ''0'' (hex_char (n div 16)) (hex_char (n mod 16)) = Some n"
proof -
  have z: "hex_val CHR ''0'' = Some 0" by (simp add: hex_val_def)
  from assms have a: "hex_val (hex_char (n div 16)) = Some (n div 16)"
    by (intro hex_val_hex_char) simp
  have b: "hex_val (hex_char (n mod 16)) = Some (n mod 16)"
    by (intro hex_val_hex_char) simp
  show ?thesis by (simp add: hex4_def z a b)
qed

lemma lex_string_quote_char:
  assumes "r \<noteq> []"
  shows "lex_string (quote_char c @ r) = prepend c (lex_string r)"
proof -
  from assms obtain e s where r: "r = e # s" by (cases r) auto
  consider (dq) "c = CHR 0x22" | (bs) "c = CHR 0x5C" | (b) "c = CHR 0x08" | (f) "c = CHR 0x0C"
    | (n) "c = CHR 0x0A" | (cr) "c = CHR 0x0D" | (t) "c = CHR 0x09"
    | (ctl) "c \<noteq> CHR 0x22" "c \<noteq> CHR 0x5C" "c \<noteq> CHR 0x08" "c \<noteq> CHR 0x0C" "c \<noteq> CHR 0x0A"
        "c \<noteq> CHR 0x0D" "c \<noteq> CHR 0x09" "(of_char c :: nat) < 32"
    | (plain) "c \<noteq> CHR 0x22" "c \<noteq> CHR 0x5C" "\<not> (of_char c :: nat) < 32"
    by (cases "(of_char c :: nat) < 32") auto
  then show ?thesis
  proof cases
    case dq then show ?thesis by (simp add: quote_char_def unescape_def r)
  next
    case bs then show ?thesis by (simp add: quote_char_def unescape_def r)
  next
    case b then show ?thesis by (simp add: quote_char_def unescape_def r)
  next
    case f then show ?thesis by (simp add: quote_char_def unescape_def r)
  next
    case n then show ?thesis by (simp add: quote_char_def unescape_def r)
  next
    case cr then show ?thesis by (simp add: quote_char_def unescape_def r)
  next
    case t then show ?thesis by (simp add: quote_char_def unescape_def r)
  next
    case ctl
    then have q: "quote_char c = [CHR 0x5C, CHR ''u'', CHR ''0'', CHR ''0'',
              hex_char (of_char c div 16), hex_char (of_char c mod 16)]"
      by (simp add: quote_char_def)
    show ?thesis
      unfolding q using hex4_hex_char[OF ctl(8)] by (simp add: r)
  next
    case plain
    then have q: "quote_char c = [c]"
      by (auto simp: quote_char_def)
    show ?thesis unfolding q using plain by (simp add: r)
  qed
qed

lemma lex_string_quoted:
  "lex_string (concat (map quote_char k) @ CHR 0x22 # s) = Some (k, s)"
proof (induction k)
  case Nil
  show ?case by (cases s) simp_all
next
  case (Cons c k)
  have "lex_string (quote_char c @ (concat (map quote_char k) @ CHR 0x22 # s))
      = prepend c (lex_string (concat (map quote_char k) @ CHR 0x22 # s))"
    by (rule lex_string_quote_char) simp
  with Cons show ?case by (simp add: prepend_def)
qed

lemma lex_space: "is_space c \<Longrightarrow> lex (c # s) = lex s"
  by (simp add: lex.simps)

lemma lex_indent: "lex (indent d @ s) = lex s"
proof -
  have "lex (replicate n CHR '' '' @ s) = lex s" for n
    by (induction n) (simp_all add: lex_space is_space_def)
  then show ?thesis by (simp add: indent_def)
qed

lemma lex_newline: "lex (newline @ s) = lex s"
  by (simp add: newline_def lex_space is_space_def)

lemma lex_punctuation:
  "lex (CHR ''{'' # s) = cons_token TLBrace (lex s)"
  "lex (CHR ''}'' # s) = cons_token TRBrace (lex s)"
  "lex (CHR ''['' # s) = cons_token TLBracket (lex s)"
  "lex (CHR '']'' # s) = cons_token TRBracket (lex s)"
  "lex (CHR '':'' # s) = cons_token TColon (lex s)"
  "lex (CHR '','' # s) = cons_token TComma (lex s)"
  by (simp_all add: lex.simps(2)[of _ s] is_space_def)

lemma lex_literals:
  "lex (''true'' @ s) = cons_token TTrue (lex s)"
  "lex (''false'' @ s) = cons_token TFalse (lex s)"
  "lex (''null'' @ s) = cons_token TNull (lex s)"
  by (simp_all add: lex.simps(2)[of "CHR ''t''"] lex.simps(2)[of "CHR ''f''"] lex.simps(2)[of "CHR ''n''"]
        is_space_def is_digit_def)

lemma lex_quoted: "lex (QuoteJSONString k @ s) = cons_token (TString k) (lex s)"
  by (simp add: QuoteJSONString_def lex.simps(2)[of "CHR 0x22"] is_space_def lex_string_quoted)

lemma lex_number_start:
  assumes "c = CHR ''-'' \<or> is_digit c"
  shows "lex (c # t) =
     (case lex_number (c # t) of None \<Rightarrow> None | Some (n, r) \<Rightarrow> cons_token (TNumber n) (lex r))"
proof -
  from assms have "\<not> is_space c" "c \<noteq> CHR ''{''" "c \<noteq> CHR ''}''" "c \<noteq> CHR ''[''" "c \<noteq> CHR '']''"
    "c \<noteq> CHR '':''" "c \<noteq> CHR '',''" "c \<noteq> CHR 0x22"
    by (auto simp: is_digit_def is_space_def)
  with assms show ?thesis by (subst lex.simps(2)) simp
qed

lemma lex_number_text:
  assumes "number_end s"
  shows "lex (number_to_string i @ s) = cons_token (TNumber i) (lex s)"
proof -
  from first_char_number[of i] obtain c t where ct: "number_to_string i = c # t"
    and c: "c = CHR ''-'' \<or> is_digit c"
    by (cases "number_to_string i") auto
  have "lex (c # t @ s) =
     (case lex_number (c # t @ s) of None \<Rightarrow> None | Some (n, r) \<Rightarrow> cons_token (TNumber n) (lex r))"
    by (rule lex_number_start[OF c])
  moreover have "lex_number (c # t @ s) = Some (i, s)"
    using lex_number_to_string[OF assms, of i] ct by simp
  ultimately show ?thesis by (simp add: ct)
qed

lemma number_end_simps:
  "number_end (CHR '','' # s)" "number_end (CHR 0x0A # s)" "number_end (newline @ s)" "number_end []"
  by (simp_all add: number_end_def is_digit_def newline_def)

lemma lex_join:
  assumes step: "\<And>x rest. x \<in> set xs \<Longrightarrow> number_end rest \<Longrightarrow>
      lex (f x @ rest) = map_option ((@) (g x)) (lex rest)"
    and "xs \<noteq> []" and "number_end rest"
  shows "lex (join ('','' @ newline @ indent d) (map f xs) @ rest)
     = map_option ((@) (separated (map g xs))) (lex rest)"
  using assms(2) assms(1) assms(3)
proof (induction xs rule: list_nonempty_induct)
  case (single x)
  then show ?case by simp
next
  case (cons x xs)
  from cons.hyps obtain y ys where xs: "xs = y # ys" by (cases xs) auto
  have ih: "lex (join ('','' @ newline @ indent d) (map f xs) @ rest)
     = map_option ((@) (separated (map g xs))) (lex rest)"
    by (rule cons.IH) (use cons.prems in auto)
  let ?J = "join ('','' @ newline @ indent d) (map f xs) @ rest"
  have "lex (join ('','' @ newline @ indent d) (map f (x # xs)) @ rest)
      = lex (f x @ (CHR '','' # newline @ indent d @ ?J))"
    by (simp add: xs)
  also have "\<dots> = map_option ((@) (g x)) (lex (CHR '','' # newline @ indent d @ ?J))"
    by (rule cons.prems(1)) (simp_all add: number_end_simps)
  also have "lex (CHR '','' # newline @ indent d @ ?J) = cons_token TComma (lex ?J)"
    by (simp only: lex_punctuation lex_newline lex_indent)
  finally show ?case
    unfolding ih by (cases "lex rest") (simp_all add: xs cons_token_def)
qed

lemma lex_serialize:
  "number_end rest \<Longrightarrow> lex (serialize d v @ rest) = map_option ((@) (tokens v)) (lex rest)"
proof (induction v arbitrary: d rest)
  case JNull
  show ?case using lex_literals(3)[of rest] by (cases "lex rest") (simp_all add: cons_token_def)
next
  case (JBool b)
  show ?case using lex_literals(1,2)[of rest]
    by (cases "lex rest"; cases b) (simp_all add: cons_token_def)
next
  case (JNum i)
  then show ?case using lex_number_text[of rest i]
    by (cases "lex rest") (simp_all add: cons_token_def)
next
  case (JStr s)
  show ?case using lex_quoted[of s rest] by (cases "lex rest") (simp_all add: cons_token_def)
next
  case (JArr xs)
  show ?case
  proof (cases "xs = []")
    case True
    then show ?thesis
      by (cases "lex rest") (simp_all add: lex_punctuation cons_token_def)
  next
    case False
    let ?rest = "newline @ indent d @ CHR '']'' # rest"
    have j: "lex (join ('','' @ newline @ indent (Suc d)) (map (serialize (Suc d)) xs) @ ?rest)
       = map_option ((@) (separated (map tokens xs))) (lex ?rest)"
      by (rule lex_join[OF _ False]) (simp_all add: JArr.IH number_end_simps)
    have r: "lex ?rest = cons_token TRBracket (lex rest)"
      by (simp only: lex_newline lex_indent lex_punctuation)
    have "lex (serialize d (JArr xs) @ rest)
       = cons_token TLBracket
           (lex (join ('','' @ newline @ indent (Suc d)) (map (serialize (Suc d)) xs) @ ?rest))"
      using False by (simp add: lex_punctuation lex_newline lex_indent)
    then show ?thesis
      unfolding j r by (cases "lex rest") (simp_all add: cons_token_def)
  qed
next
  case (JObj kvs)
  show ?case
  proof (cases "kvs = []")
    case True
    then show ?thesis
      by (cases "lex rest") (simp_all add: lex_punctuation cons_token_def)
  next
    case False
    let ?rest = "newline @ indent d @ CHR ''}'' # rest"
    let ?f = "\<lambda>kv. QuoteJSONString (fst kv) @ '': '' @ serialize (Suc d) (snd kv)"
    let ?g = "\<lambda>kv. TString (fst kv) # TColon # tokens (snd kv)"
    have m: "lex (?f kv @ r) = map_option ((@) (?g kv)) (lex r)"
      if "kv \<in> set kvs" and "number_end r" for kv r
    proof -
      have "snd kv \<in> Basic_BNFs.snds kv" by (cases kv) simp
      from JObj.IH[OF that(1) this that(2)]
      have ih: "lex (serialize (Suc d) (snd kv) @ r) = map_option ((@) (tokens (snd kv))) (lex r)" .
      have "lex (?f kv @ r)
         = cons_token (TString (fst kv)) (cons_token TColon (lex (serialize (Suc d) (snd kv) @ r)))"
        by (simp add: lex_quoted lex_punctuation lex_space is_space_def)
      then show ?thesis
        unfolding ih by (cases "lex r") (simp_all add: cons_token_def)
    qed
    have j: "lex (join ('','' @ newline @ indent (Suc d)) (map ?f kvs) @ ?rest)
       = map_option ((@) (separated (map ?g kvs))) (lex ?rest)"
      by (rule lex_join[OF m False]) (simp_all add: number_end_simps)
    have r: "lex ?rest = cons_token TRBrace (lex rest)"
      by (simp only: lex_newline lex_indent lex_punctuation)
    have "lex (serialize d (JObj kvs) @ rest)
       = cons_token TLBrace (lex (join ('','' @ newline @ indent (Suc d)) (map ?f kvs) @ ?rest))"
      using False by (simp add: lex_punctuation lex_newline lex_indent)
    then show ?thesis
      unfolding j r by (cases "lex rest") (simp_all add: cons_token_def)
  qed
qed

lemma lex_stringify: "lex (JSON_stringify v) = Some (tokens v)"
  using lex_serialize[of "[]" 0 v] by (simp add: JSON_stringify_def number_end_simps lex.simps(1))

subsection \<open>The parser on the tokens of a value\<close>

lemma js_ordered_append_left: "js_ordered (xs @ ys) \<Longrightarrow> js_ordered xs"
  by (induction xs rule: js_ordered.induct) (auto split: if_splits)

lemma js_ordered_snoc_index:
  assumes "js_ordered (ks @ [k])" and "array_index k" and "k' \<in> set ks"
  shows "array_index k' \<and> nat_of_digits k' < nat_of_digits k"
  using assms
proof (induction ks arbitrary: k' rule: js_ordered.induct)
  case 1
  then show ?case by simp
next
  case (2 a)
  then show ?case by simp
next
  case (3 a b ks)
  from 3(2) have o: "js_ordered ((b # ks) @ [k])"
    and ab: "array_index b \<longrightarrow> array_index a \<and> nat_of_digits a < nat_of_digits b"
    by simp_all
  have b: "array_index b \<and> nat_of_digits b < nat_of_digits k"
    by (rule 3(1)[OF o 3(3)]) simp
  show ?case
  proof (cases "k' = a")
    case True
    with ab b show ?thesis by auto
  next
    case False
    with 3(4) have "k' \<in> set (b # ks)" by simp
    from 3(1)[OF o 3(3) this] show ?thesis .
  qed
qed

lemma js_ordered_snoc_other:
  "js_ordered ks \<Longrightarrow> \<not> array_index k \<Longrightarrow> js_ordered (ks @ [k])"
  by (induction ks rule: js_ordered.induct) auto

lemma insert_index_append:
  assumes "\<forall>kv \<in> set kvs. array_index (fst kv) \<and> nat_of_digits (fst kv) < nat_of_digits k"
  shows "insert_index k v kvs = kvs @ [(k, v)]"
  using assms by (induction kvs) auto

lemma update_append_new: "k \<notin> fst ` set kvs \<Longrightarrow> AList.update k v kvs = kvs @ [(k, v)]"
  by (induction kvs) auto

lemma define_property_append:
  assumes "wf_keys (map fst kvs @ [k])"
  shows "define_property kvs k v = kvs @ [(k, v)]"
proof -
  from assms have new: "k \<notin> fst ` set kvs" and o: "js_ordered (map fst kvs @ [k])"
    by (auto simp: wf_keys_def)
  show ?thesis
  proof (cases "array_index k")
    case True
    have "\<forall>kv \<in> set kvs. array_index (fst kv) \<and> nat_of_digits (fst kv) < nat_of_digits k"
      using js_ordered_snoc_index[OF o True] by auto
    with new True show ?thesis
      by (simp add: define_property_def insert_index_append)
  next
    case False
    with new show ?thesis by (simp add: define_property_def update_append_new)
  qed
qed

lemma wf_keys_append_left: "wf_keys (xs @ ys) \<Longrightarrow> wf_keys xs"
  by (auto simp: wf_keys_def dest: js_ordered_append_left)

lemma foldl_define_property:
  "wf_keys (map fst (acc @ kvs)) \<Longrightarrow>
     foldl (\<lambda>obj (k, v). define_property obj k v) acc kvs = acc @ kvs"
proof (induction kvs arbitrary: acc)
  case Nil
  show ?case by simp
next
  case (Cons kv kvs)
  obtain k v where kv: "kv = (k, v)" by (cases kv)
  from Cons.prems have "wf_keys ((map fst acc @ [k]) @ map fst kvs)" by (simp add: kv)
  then have "wf_keys (map fst acc @ [k])" by (rule wf_keys_append_left)
  then have d: "define_property acc k v = acc @ [(k, v)]" by (rule define_property_append)
  from Cons.prems have "wf_keys (map fst ((acc @ [(k, v)]) @ kvs))" by (simp add: kv)
  from Cons.IH[OF this] show ?case by (simp add: kv d)
qed

lemma from_entries_wf: "wf_keys (map fst kvs) \<Longrightarrow> from_entries kvs = kvs"
  using foldl_define_property[of "[]" kvs] by (simp add: from_entries_def)

declare parse_elements.simps [simp del]

lemma tokens_start:
  "tokens v \<noteq> [] \<and> hd (tokens v) \<noteq> TRBracket \<and> hd (tokens v) \<noteq> TRBrace
     \<and> hd (tokens v) \<noteq> TComma \<and> hd (tokens v) \<noteq> TColon"
  by (cases v) auto

lemma parse_elements_tokens:
  assumes "xs \<noteq> []"
    and "\<And>x rest. x \<in> set xs \<Longrightarrow> parse_value (tokens x @ rest) = Some (x, rest)"
  shows "parse_elements (separated (map tokens xs) @ TRBracket # rest) = Some (xs, rest)"
  using assms
proof (induction xs rule: list_nonempty_induct)
  case (single x)
  have "parse_value (tokens x @ TRBracket # rest) = Some (x, TRBracket # rest)"
    by (rule single) simp
  then show ?case by (subst parse_elements.simps) simp
next
  case (cons x xs)
  from cons.hyps obtain y ys where xs: "xs = y # ys" by (cases xs) auto
  let ?R = "separated (map tokens xs) @ TRBracket # rest"
  have ih: "parse_elements ?R = Some (xs, rest)"
    by (rule cons.IH) (use cons.prems in auto)
  have pv: "parse_value (tokens x @ TComma # ?R) = Some (x, TComma # ?R)"
    by (rule cons.prems) simp
  have e: "separated (map tokens (x # xs)) @ TRBracket # rest = tokens x @ TComma # ?R"
    by (simp add: xs)
  show ?case
    unfolding e by (subst parse_elements.simps) (simp add: pv ih)
qed

lemma parse_members_tokens:
  assumes "kvs \<noteq> []"
    and "\<And>kv rest. kv \<in> set kvs \<Longrightarrow> parse_value (tokens (snd kv) @ rest) = Some (snd kv, rest)"
  shows "parse_members (separated (map (\<lambda>kv. TString (fst kv) # TColon # tokens (snd kv)) kvs)
            @ TRBrace # rest) = Some (kvs, rest)"
  using assms
proof (induction kvs rule: list_nonempty_induct)
  case (single kv)
  have "parse_value (tokens (snd kv) @ TRBrace # rest) = Some (snd kv, TRBrace # rest)"
    by (rule single) simp
  then show ?case by simp
next
  case (cons kv kvs)
  from cons.hyps obtain y ys where kvs: "kvs = y # ys" by (cases kvs) auto
  let ?g = "\<lambda>kv. TString (fst kv) # TColon # tokens (snd kv)"
  let ?R = "separated (map ?g kvs) @ TRBrace # rest"
  have ih: "parse_members ?R = Some (kvs, rest)"
    by (rule cons.IH) (use cons.prems in auto)
  have pv: "parse_value (tokens (snd kv) @ TComma # ?R) = Some (snd kv, TComma # ?R)"
    by (rule cons.prems) simp
  have e: "separated (map ?g (kv # kvs)) @ TRBrace # rest
      = TString (fst kv) # TColon # tokens (snd kv) @ TComma # ?R"
    by (simp add: kvs)
  show ?case
    unfolding e by (simp add: pv ih)
qed

lemma parse_value_tokens:
  "wf_json v \<Longrightarrow> parse_value (tokens v @ rest) = Some (v, rest)"
proof (induction v arbitrary: rest)
  case (JArr xs)
  show ?case
  proof (cases "xs = []")
    case True
    then show ?thesis by simp
  next
    case False
    have pe: "parse_elements (separated (map tokens xs) @ TRBracket # rest) = Some (xs, rest)"
      by (rule parse_elements_tokens[OF False]) (use JArr in auto)
    from False obtain x ys where xs: "xs = x # ys" by (cases xs) auto
    have "hd (separated (map tokens xs) @ TRBracket # rest) = hd (tokens x)"
      using tokens_start[of x] by (cases ys) (simp_all add: xs)
    with tokens_start[of x] have h: "hd (separated (map tokens xs) @ TRBracket # rest) \<noteq> TRBracket"
      by simp
    show ?thesis using h pe by simp
  qed
next
  case (JObj kvs)
  show ?case
  proof (cases "kvs = []")
    case True
    then show ?thesis by simp
  next
    case False
    let ?g = "\<lambda>kv. TString (fst kv) # TColon # tokens (snd kv)"
    have pm: "parse_members (separated (map ?g kvs) @ TRBrace # rest) = Some (kvs, rest)"
    proof (rule parse_members_tokens[OF False])
      fix kv r assume kv: "kv \<in> set kvs"
      have "snd kv \<in> Basic_BNFs.snds kv" by (cases kv) simp
      from JObj.IH[OF kv this] JObj.prems kv
      show "parse_value (tokens (snd kv) @ r) = Some (snd kv, r)" by simp
    qed
    from False obtain kv ys where kvs: "kvs = kv # ys" by (cases kvs) auto
    have h: "hd (separated (map ?g kvs) @ TRBrace # rest) \<noteq> TRBrace"
      by (cases ys) (simp_all add: kvs)
    from JObj.prems have "from_entries kvs = kvs" by (simp add: from_entries_wf)
    with h pm show ?thesis by simp
  qed
qed simp_all

lemma parse_stringify: "wf_json v \<Longrightarrow> JSON_parse (JSON_stringify v) = Some v"
  using parse_value_tokens[of v "[]"] by (simp add: JSON_parse_def lex_stringify)

subsection \<open>The values the parser returns\<close>

lemma insert_index_set: "set (insert_index k v kvs) = insert (k, v) (set kvs)"
  by (induction kvs) (auto split: if_splits)

lemma update_subset: "set (AList.update k v kvs) \<subseteq> insert (k, v) (set kvs)"
  by (induction kvs) auto

lemma define_property_subset: "set (define_property kvs k v) \<subseteq> insert (k, v) (set kvs)"
  using update_subset[of k v kvs] by (simp add: define_property_def insert_index_set)

lemma insert_index_ordered:
  assumes "array_index k" and "k \<notin> fst ` set kvs" and "js_ordered (map fst kvs)"
  shows "js_ordered (map fst (insert_index k v kvs))"
  using assms
proof (induction kvs)
  case Nil
  show ?case by simp
next
  case (Cons kv kvs)
  obtain k' v' where kv: "kv = (k', v')" by (cases kv)
  from Cons.prems have ne: "k \<noteq> k'" and new: "k \<notin> fst ` set kvs" by (auto simp: kv)
  from Cons.prems(3) have o: "js_ordered (map fst kvs)"
    by (cases kvs) (auto simp: kv)
  note ih = Cons.IH[OF Cons.prems(1) new o]
  show ?case
  proof (cases "array_index k' \<and> nat_of_digits k' < nat_of_digits k")
    case True
    show ?thesis
    proof (cases kvs)
      case Nil
      with True Cons.prems(1) show ?thesis by (simp add: kv)
    next
      case (Cons kv2 rest)
      obtain k2 v2 where kv2: "kv2 = (k2, v2)" by (cases kv2)
      from Cons.prems(3) have k2: "array_index k2 \<longrightarrow> array_index k' \<and> nat_of_digits k' < nat_of_digits k2"
        by (simp add: kv Cons kv2)
      from ih True k2 Cons.prems(1) show ?thesis
        by (auto simp: kv Cons kv2)
    qed
  next
    case False
    have "array_index k' \<longrightarrow> nat_of_digits k < nat_of_digits k'"
    proof
      assume a: "array_index k'"
      with False have "nat_of_digits k \<le> nat_of_digits k'" by simp
      moreover have "nat_of_digits k \<noteq> nat_of_digits k'"
        using array_index_inj[OF Cons.prems(1) a] ne by blast
      ultimately show "nat_of_digits k < nat_of_digits k'" by simp
    qed
    with False Cons.prems show ?thesis by (auto simp: kv)
  qed
qed

lemma insert_index_distinct:
  "k \<notin> fst ` set kvs \<Longrightarrow> distinct (map fst kvs) \<Longrightarrow> distinct (map fst (insert_index k v kvs))"
  by (induction kvs) (auto simp: insert_index_set image_iff)

lemma define_property_wf_keys:
  assumes "wf_keys (map fst kvs)"
  shows "wf_keys (map fst (define_property kvs k v))"
proof (cases "k \<in> fst ` set kvs")
  case True
  then have "map fst (define_property kvs k v) = map fst kvs"
    by (simp add: define_property_def update_keys)
  with assms show ?thesis by simp
next
  case new: False
  show ?thesis
  proof (cases "array_index k")
    case True
    have "distinct (map fst (insert_index k v kvs))"
      using assms new by (intro insert_index_distinct) (auto simp: wf_keys_def)
    moreover have "js_ordered (map fst (insert_index k v kvs))"
      using assms new True by (intro insert_index_ordered) (auto simp: wf_keys_def)
    ultimately show ?thesis using new True by (simp add: define_property_def wf_keys_def)
  next
    case False
    with new have "define_property kvs k v = kvs @ [(k, v)]"
      by (simp add: define_property_def update_append_new)
    with assms new False show ?thesis
      by (auto simp: wf_keys_def js_ordered_snoc_other)
  qed
qed

lemma foldl_define_property_wf:
  "wf_keys (map fst acc) \<Longrightarrow>
     wf_keys (map fst (foldl (\<lambda>obj (k, v). define_property obj k v) acc kvs))
     \<and> set (foldl (\<lambda>obj (k, v). define_property obj k v) acc kvs) \<subseteq> set acc \<union> set kvs"
proof (induction kvs arbitrary: acc)
  case Nil
  then show ?case by simp
next
  case (Cons kv kvs)
  obtain k v where kv: "kv = (k, v)" by (cases kv)
  from Cons.prems have "wf_keys (map fst (define_property acc k v))"
    by (rule define_property_wf_keys)
  from Cons.IH[OF this] define_property_subset[of acc k v] show ?case
    by (auto simp: kv)
qed

lemma from_entries_props:
  "wf_keys (map fst (from_entries kvs)) \<and> set (from_entries kvs) \<subseteq> set kvs"
  using foldl_define_property_wf[of "[]" kvs] by (simp add: from_entries_def wf_keys_def)

lemma parse_wf:
  "(\<forall>v r. parse_value ts = Some (v, r) \<longrightarrow> wf_json v)"
  "(\<forall>vs r. parse_elements ts = Some (vs, r) \<longrightarrow> (\<forall>v \<in> set vs. wf_json v))"
  "(\<forall>kvs r. parse_members ts = Some (kvs, r) \<longrightarrow> (\<forall>kv \<in> set kvs. wf_json (snd kv)))"
proof (induction ts and ts and ts rule: parse_value_parse_elements_parse_members.induct)
  case (7 ts)
  then show ?case by (auto split: if_splits option.splits)
next
  case (8 ts)
  show ?case
  proof (intro allI impI)
    fix v r assume a: "parse_value (TLBrace # ts) = Some (v, r)"
    show "wf_json v"
    proof (cases "ts \<noteq> [] \<and> hd ts = TRBrace")
      case True
      with a show ?thesis by (auto simp: wf_keys_def)
    next
      case False
      with a obtain kvs where m: "parse_members ts = Some (kvs, r)" and v: "v = JObj (from_entries kvs)"
        by (auto split: option.splits)
      from 8[OF False] m have "\<forall>kv \<in> set kvs. wf_json (snd kv)" by blast
      with from_entries_props[of kvs] show ?thesis by (auto simp: v)
    qed
  qed
next
  case (13 ts)
  then show ?case
    by (subst parse_elements.simps) (auto split: if_splits option.splits)
next
  case (16 t c ts)
  then show ?case
    by (auto split: if_splits option.splits)
qed simp_all

lemma JSON_parse_wf:
  assumes "JSON_parse s = Some v"
  shows "wf_json v"
proof -
  from assms obtain ts where "parse_value ts = Some (v, [])"
    by (auto simp: JSON_parse_def split: option.splits list.splits)
  with parse_wf(1) show ?thesis by blast
qed

subsection \<open>The document an update writes\<close>

lemma not_array_index: "\<not> array_index ''Parameters''" "\<not> array_index ''Values''"
  by code_simp+

lemma stageConfig_wf: "wf_json (stageConfig a)"
  by (auto simp: stageConfig_def requires_def requirement_def wf_keys_def not_array_index
           split: option.splits)

lemma assign_property_wf:
  assumes "wf_json envs" and "wf_json x" and "assign_property envs k x = Inr envs'"
  shows "wf_json envs'"
proof (cases envs)
  case (JObj kvs)
  with assms(3) have e: "envs' = JObj (define_property kvs k x)" by simp
  from assms(1) JObj have "wf_keys (map fst (define_property kvs k x))"
    by (simp add: define_property_wf_keys)
  moreover have "\<forall>kv \<in> set (define_property kvs k x). wf_json (snd kv)"
    using define_property_subset[of kvs k x] assms(1,2) JObj by auto
  ultimately show ?thesis by (simp add: e)
next
  case (JArr xs)
  with assms(3) have "envs' = JArr (xs[nat_of_digits k := x])" by (simp split: if_splits)
  with assms(1,2) JArr show ?thesis
    using set_update_subset_insert[of xs "nat_of_digits k" x] by auto
qed (use assms in auto)

lemma mutateConfig_wf:
  assumes "mutateConfig a content = Inr cfg"
  shows "wf_json cfg"
proof -
  from assms obtain kvs envs envs' where
    p: "JSON_parse content = Some (JObj kvs)"
    and e: "map_of kvs ''Environments'' = Some envs"
    and asg: "assign_property envs (stage a) (stageConfig a) = Inr envs'"
    and cfg: "cfg = JObj (define_property kvs ''Environments'' envs')"
    by (rule mutateConfig_steps)
  from JSON_parse_wf[OF p] have w: "wf_json (JObj kvs)" .
  from e have "(''Environments'', envs) \<in> set kvs" by (rule map_of_SomeD)
  with w have "wf_json envs" by auto
  from assign_property_wf[OF this stageConfig_wf asg] have w': "wf_json envs'" .
  have "assign_property (JObj kvs) ''Environments'' envs' = Inr cfg" by (simp add: cfg)
  from assign_property_wf[OF w w' this] show ?thesis .
qed

lemma update_keys_same: "k \<in> fst ` set kvs \<Longrightarrow> map fst (AList.update k v kvs) = map fst kvs"
  by (simp add: update_keys)



end
